theory Spec2Isabelle
  imports Complex_Main "HOL-Library.Multiset"
begin

section \<open>Python values used by \<open>vllm/entrypoints/llm.py\<close>\<close>

text \<open>
  Exceptions raised by the modelled code are values. The string carried by
  \<open>ValueError\<close> and \<open>TypeError\<close> is the message of the \<^verbatim>\<open>raise\<close> statement,
  so that the check that fired can be told apart. \<open>EngineError\<close> stands for any
  exception that the stepping engine raises; the entry point does not catch it.
\<close>

datatype error =
    ValueError string
  | TypeError string
  | IndexError
  | KeyError string
  | AssertionError
  | ZeroDivisionError
  | EngineError string

text \<open>Python's \<^verbatim>\<open>xs[i]\<close> for a non-negative index: out of range raises.\<close>

definition py_index :: "'a list \<Rightarrow> nat \<Rightarrow> error + 'a" where
  "py_index xs i = (if i < length xs then Inr (xs ! i) else Inl IndexError)"

text \<open>
  Python's slice \<^verbatim>\<open>xs[:n]\<close>: the first \<open>n\<close> elements for \<open>n \<ge> 0\<close>, all but the
  last \<open>-n\<close> elements for a negative \<open>n\<close>.
\<close>

definition py_slice_to :: "int \<Rightarrow> 'a list \<Rightarrow> 'a list" where
  "py_slice_to n xs =
     (if 0 \<le> n then take (nat n) xs else take (length xs - nat (- n)) xs)"

text \<open>
  Python's \<^verbatim>\<open>sorted(xs, key=k)\<close> is a stable ascending sort, as \<^const>\<open>sort_key\<close> is.
  With \<^verbatim>\<open>reverse=True\<close> the order is descending and elements with equal keys keep
  their original relative order.
\<close>

definition py_sorted :: "('a \<Rightarrow> 'k::linorder) \<Rightarrow> 'a list \<Rightarrow> 'a list" where
  "py_sorted k xs = sort_key k xs"

definition py_sorted_reverse :: "('a \<Rightarrow> 'k::linorder) \<Rightarrow> 'a list \<Rightarrow> 'a list" where
  "py_sorted_reverse k xs = rev (sort_key k (rev xs))"

section \<open>Data of the entry point\<close>

text \<open>
  Token identifiers are Python integers. A Python \<^verbatim>\<open>float\<close> is modelled by a real
  number: rounding is not modelled. The dictionary \<^verbatim>\<open>dict[int, Logprob]\<close> that the
  engine returns for one position is an association list in the dictionary's
  iteration order, each \<^verbatim>\<open>Logprob\<close> object reduced to its \<^verbatim>\<open>logprob\<close> field.
  Adapter handles and multimodal payloads are opaque.
\<close>

type_synonym token_id = int
type_synonym logprob_dict = "(token_id \<times> real) list"

datatype LoRARequest = LoRARequest nat
datatype mm_payload = MMPayload nat

text \<open>
  A prompt dictionary (\<^verbatim>\<open>TextPrompt\<close> or \<^verbatim>\<open>TokensPrompt\<close>): each field is one key
  of the dictionary, \<open>None\<close> when the key is absent.
\<close>

record PromptDict =
  key_prompt :: "string option"
  key_prompt_token_ids :: "token_id list option"
  key_multi_modal_data :: "mm_payload option"
  key_mm_processor_kwargs :: "mm_payload option"

datatype RequestOutputKind = CUMULATIVE | DELTA | FINAL_ONLY

datatype GuidedDecodingParams = GuidedDecodingParams nat

text \<open>
  \<^verbatim>\<open>SamplingParams\<close>: the fields the entry point reads or writes (\<open>logprobs\<close>,
  \<open>max_tokens\<close>, \<open>temperature\<close>, \<open>truncate_prompt_tokens\<close>, \<open>guided_decoding\<close>,
  \<open>output_kind\<close>); every other field of the class is in \<open>sp_other\<close>.
\<close>

record SamplingParams =
  sp_logprobs :: "int option"
  sp_max_tokens :: "int option"
  sp_temperature :: real
  truncate_prompt_tokens :: "int option"
  guided_decoding :: "GuidedDecodingParams option"
  output_kind :: RequestOutputKind
  sp_other :: nat

text \<open>
  An output of the engine. \<open>request_id\<close> and \<open>finished\<close> are read by \<open>_run_engine\<close>
  for every output. \<open>is_pooling_output\<close> tells a \<^verbatim>\<open>PoolingRequestOutput\<close> from a
  \<^verbatim>\<open>RequestOutput\<close> (the \<^verbatim>\<open>isinstance\<close> test of line 1598); of a
  \<^verbatim>\<open>RequestOutput\<close>, \<open>prompt_token_ids\<close> can be \<^verbatim>\<open>None\<close> and \<open>outputs\<close> is the list
  of completions, each with its \<open>token_ids\<close> and its \<open>logprobs\<close> field (\<^verbatim>\<open>None\<close>, or
  one dictionary per generated position).
\<close>

datatype CompletionOutput =
  CompletionOutput (co_token_ids: "token_id list") (co_logprobs: "logprob_dict list option")

record RequestOutput =
  request_id :: string
  finished :: bool
  is_pooling_output :: bool
  prompt_token_ids :: "token_id list option"
  outputs :: "CompletionOutput list"

section \<open>Beam search (\<open>LLM.beam_search\<close>, lines 576--734)\<close>

record BeamSearchSequence =
  tokens :: "token_id list"
  logprobs :: "logprob_dict list"
  lora_request :: "LoRARequest option"
  cum_logprob :: real
  beam_text :: "string option"
  multi_modal_data :: "mm_payload option"
  mm_processor_kwargs :: "mm_payload option"

text \<open>
  Modelled from the spec: the class \<^verbatim>\<open>BeamSearchInstance\<close> of \<open>vllm/beam_search.py\<close>
  is not among the sources. The spec (section 3) has it hold the original prompt tokens,
  the ordered list of active beams, the list of completed beams and the adapter handle,
  created once per input prompt; an active beam after step \<open>k\<close> has
  \<open>len(prompt_tokens) + k\<close> tokens (section 8), so a new instance has one active beam
  that holds the prompt tokens, with no log-probabilities and cumulative
  log-probability 0, and no completed beam. The arguments are those of the
  constructor call at lines 647--652.
\<close>

record BeamSearchInstance =
  prompt_tokens :: "token_id list"
  beams :: "BeamSearchSequence list"
  completed :: "BeamSearchSequence list"
  instance_lora_request :: "LoRARequest option"

definition new_instance ::
  "token_id list \<Rightarrow> LoRARequest option \<Rightarrow> mm_payload option \<Rightarrow> mm_payload option
     \<Rightarrow> BeamSearchInstance" where
  "new_instance ptoks lora_req mm_data mm_kwargs =
     \<lparr> prompt_tokens = ptoks,
       beams = [\<lparr> tokens = ptoks, logprobs = [], lora_request = lora_req,
                  cum_logprob = 0, beam_text = None,
                  multi_modal_data = mm_data, mm_processor_kwargs = mm_kwargs \<rparr>],
       completed = [],
       instance_lora_request = lora_req \<rparr>"

record BeamSearchOutput =
  sequences :: "BeamSearchSequence list"

record BeamSearchParams =
  beam_width :: int
  max_tokens :: int
  temperature :: real
  ignore_eos :: bool
  length_penalty :: real

text \<open>
  The collaborators of \<open>beam_search\<close> that are not among the sources are parameters:
  the tokenizer (\<open>eos_token_id\<close>, \<open>encode\<close>, \<open>decode\<close>), the function
  \<^verbatim>\<open>create_sort_beams_key_function\<close> of \<open>vllm/beam_search.py\<close>, and \<open>self.generate\<close>
  as it answers the call of line 684. The latter is a function of the number of calls
  made before and of the arguments of the call, so that its answer may depend on
  anything the engine has seen; it returns the outputs or raises.
\<close>

record Tokenizer =
  eos_token_id :: "token_id option"
  encode :: "string \<Rightarrow> token_id list"
  decode :: "token_id list \<Rightarrow> string"

type_synonym sort_key_factory =
  "token_id option \<Rightarrow> real \<Rightarrow> BeamSearchSequence \<Rightarrow> real"

type_synonym generate_fn =
  "nat \<Rightarrow> PromptDict list \<Rightarrow> SamplingParams \<Rightarrow> LoRARequest option list
     \<Rightarrow> error + RequestOutput list"

datatype lora_arg =
    LoraNone
  | LoraSingle LoRARequest
  | LoraSeq "LoRARequest option list"

text \<open>\<open>LLM._get_beam_search_lora_requests\<close>, lines 560--574.\<close>

definition get_beam_search_lora_requests ::
  "lora_arg \<Rightarrow> PromptDict list \<Rightarrow> error + LoRARequest option list" where
  "get_beam_search_lora_requests lora_req prompts =
     (case lora_req of
        LoraSeq ls \<Rightarrow>
          (if length ls \<noteq> length prompts
           then Inl (ValueError ''Lora request list should be the same length as the prompts'')
           else Inl (TypeError ''Invalid lora_request type''))
      | LoraNone \<Rightarrow> Inr (replicate (length prompts) None)
      | LoraSingle l \<Rightarrow> Inr (replicate (length prompts) (Some l)))"

text \<open>\<open>create_tokens_prompt_from_beam\<close>, lines 610--621.\<close>

definition create_tokens_prompt_from_beam :: "BeamSearchSequence \<Rightarrow> PromptDict" where
  "create_tokens_prompt_from_beam beam =
     \<lparr> key_prompt = None,
       key_prompt_token_ids = Some (tokens beam),
       key_multi_modal_data = multi_modal_data beam,
       key_mm_processor_kwargs = mm_processor_kwargs beam \<rparr>"

text \<open>
  Lines 626--628: the parameters of every continuation request. The fields that the
  call does not set have the defaults of the class, which are not among the sources:
  they are the argument \<open>dflt\<close>.
\<close>

definition beam_search_params :: "SamplingParams \<Rightarrow> BeamSearchParams \<Rightarrow> SamplingParams" where
  "beam_search_params dflt params =
     dflt \<lparr> sp_logprobs := Some (2 * beam_width params),
            sp_max_tokens := Some 1,
            sp_temperature := temperature params \<rparr>"

text \<open>
  Lines 640--644: the tokens of a prompt. A prompt with neither \<open>prompt_token_ids\<close>
  nor \<open>prompt\<close> raises \<open>KeyError\<close> at line 644.
\<close>

definition get_prompt_tokens :: "Tokenizer \<Rightarrow> PromptDict \<Rightarrow> error + token_id list" where
  "get_prompt_tokens tokenizer prompt =
     (case key_prompt_token_ids prompt of
        Some ptoks \<Rightarrow> Inr ptoks
      | None \<Rightarrow>
          (case key_prompt prompt of
             None \<Rightarrow> Inl (KeyError ''prompt'')
           | Some txt \<Rightarrow> Inr (encode tokenizer txt)))"

text \<open>Lines 631--652: one instance per pair of \<open>zip(lora_requests, prompts)\<close>.\<close>

definition create_instance ::
  "Tokenizer \<Rightarrow> LoRARequest option \<times> PromptDict \<Rightarrow> error + BeamSearchInstance" where
  "create_instance tokenizer lp =
     (case get_prompt_tokens tokenizer (snd lp) of
        Inl e \<Rightarrow> Inl e
      | Inr ptoks \<Rightarrow>
          Inr (new_instance ptoks (fst lp)
                 (key_multi_modal_data (snd lp)) (key_mm_processor_kwargs (snd lp))))"

fun create_instances ::
  "Tokenizer \<Rightarrow> (LoRARequest option \<times> PromptDict) list \<Rightarrow> error + BeamSearchInstance list" where
  "create_instances tokenizer [] = Inr []"
| "create_instances tokenizer (lp # lps) =
     (case create_instance tokenizer lp of
        Inl e \<Rightarrow> Inl e
      | Inr inst \<Rightarrow>
          (case create_instances tokenizer lps of
             Inl e \<Rightarrow> Inl e
           | Inr insts \<Rightarrow> Inr (inst # insts)))"

text \<open>
  Lines 702--710: the child of \<open>current_beam\<close> for one entry
  \<open>(token_id, logprob_obj)\<close> of the dictionary \<open>logprobs\<close>.
\<close>

definition new_beam ::
  "BeamSearchSequence \<Rightarrow> logprob_dict \<Rightarrow> token_id \<times> real \<Rightarrow> BeamSearchSequence" where
  "new_beam current_beam lps item =
     \<lparr> tokens = tokens current_beam @ [fst item],
       logprobs = logprobs current_beam @ [lps],
       lora_request = lora_request current_beam,
       cum_logprob = cum_logprob current_beam + snd item,
       beam_text = None,
       multi_modal_data = multi_modal_data current_beam,
       mm_processor_kwargs = mm_processor_kwargs current_beam \<rparr>"

text \<open>
  Lines 701--716, the loop over the entries of one dictionary. The state is the pair
  of \<open>instance.completed\<close> and \<open>instance_new_beams\<close>; both grow at the end.
\<close>

fun expand_items ::
  "token_id option \<Rightarrow> bool \<Rightarrow> BeamSearchSequence \<Rightarrow> logprob_dict \<Rightarrow> (token_id \<times> real) list
     \<Rightarrow> BeamSearchSequence list \<times> BeamSearchSequence list
     \<Rightarrow> BeamSearchSequence list \<times> BeamSearchSequence list" where
  "expand_items eos ign current_beam lps [] st = st"
| "expand_items eos ign current_beam lps (item # items) st =
     (if Some (fst item) = eos \<and> \<not> ign
      then expand_items eos ign current_beam lps items
             (fst st @ [new_beam current_beam lps item], snd st)
      else expand_items eos ign current_beam lps items
             (fst st, snd st @ [new_beam current_beam lps item]))"

text \<open>
  Lines 692--716, the loop \<^verbatim>\<open>for i in range(start, end)\<close> over the positions of one
  instance in the flattened batch. Every subscript of the source can raise.
  \<open>result_logprobs\<close> is \<^verbatim>\<open>result.outputs[0].logprobs\<close> followed, when that is not
  \<^verbatim>\<open>None\<close>, by the subscript \<^verbatim>\<open>[0]\<close> of line 700.
\<close>

definition result_logprobs :: "RequestOutput \<Rightarrow> error + logprob_dict option" where
  "result_logprobs result =
     (case py_index (outputs result) 0 of
        Inl e \<Rightarrow> Inl e
      | Inr out0 \<Rightarrow>
          (case co_logprobs out0 of
             None \<Rightarrow> Inr None
           | Some lpl \<Rightarrow>
               (case py_index lpl 0 of
                  Inl e \<Rightarrow> Inl e
                | Inr lps \<Rightarrow> Inr (Some lps))))"

fun expand_range ::
  "token_id option \<Rightarrow> bool \<Rightarrow> BeamSearchSequence list \<Rightarrow> RequestOutput list \<Rightarrow> nat list
     \<Rightarrow> BeamSearchSequence list \<times> BeamSearchSequence list
     \<Rightarrow> error + BeamSearchSequence list \<times> BeamSearchSequence list" where
  "expand_range eos ign all_beams output [] st = Inr st"
| "expand_range eos ign all_beams output (i # is) st =
     (case py_index all_beams i of
        Inl e \<Rightarrow> Inl e
      | Inr current_beam \<Rightarrow>
          (case py_index output i of
             Inl e \<Rightarrow> Inl e
           | Inr result \<Rightarrow>
               (case result_logprobs result of
                  Inl e \<Rightarrow> Inl e
                | Inr None \<Rightarrow> expand_range eos ign all_beams output is st
                | Inr (Some lps) \<Rightarrow>
                    expand_range eos ign all_beams output is
                      (expand_items eos ign current_beam lps lps st))))"

text \<open>
  Lines 689--720 for one pair \<open>((start, end), instance)\<close>: expand, then sort the new
  beams in descending order of the key and keep \<^verbatim>\<open>sorted_beams[:beam_width]\<close>.
\<close>

definition step_instance ::
  "token_id option \<Rightarrow> bool \<Rightarrow> (BeamSearchSequence \<Rightarrow> real) \<Rightarrow> int
     \<Rightarrow> BeamSearchSequence list \<Rightarrow> RequestOutput list
     \<Rightarrow> (nat \<times> nat) \<times> BeamSearchInstance \<Rightarrow> error + BeamSearchInstance" where
  "step_instance eos ign sort_beams_key bw all_beams output se_inst =
     (case expand_range eos ign all_beams output
             [fst (fst se_inst) ..< snd (fst se_inst)] (completed (snd se_inst), []) of
        Inl e \<Rightarrow> Inl e
      | Inr st \<Rightarrow>
          Inr ((snd se_inst)
                 \<lparr> beams := py_slice_to bw (py_sorted_reverse sort_beams_key (snd st)),
                   completed := fst st \<rparr>))"

fun step_instances ::
  "token_id option \<Rightarrow> bool \<Rightarrow> (BeamSearchSequence \<Rightarrow> real) \<Rightarrow> int
     \<Rightarrow> BeamSearchSequence list \<Rightarrow> RequestOutput list
     \<Rightarrow> ((nat \<times> nat) \<times> BeamSearchInstance) list \<Rightarrow> error + BeamSearchInstance list" where
  "step_instances eos ign sort_beams_key bw all_beams output [] = Inr []"
| "step_instances eos ign sort_beams_key bw all_beams output (x # xs) =
     (case step_instance eos ign sort_beams_key bw all_beams output x of
        Inl e \<Rightarrow> Inl e
      | Inr inst \<Rightarrow>
          (case step_instances eos ign sort_beams_key bw all_beams output xs of
             Inl e \<Rightarrow> Inl e
           | Inr insts \<Rightarrow> Inr (inst # insts)))"

text \<open>\<^verbatim>\<open>itertools.accumulate\<close>: the running sums, started from \<open>s\<close>.\<close>

fun accumulate_from :: "nat \<Rightarrow> nat list \<Rightarrow> nat list" where
  "accumulate_from s [] = []"
| "accumulate_from s (x # xs) = (s + x) # accumulate_from (s + x) xs"

text \<open>Lines 666--672.\<close>

definition flatten_beams :: "BeamSearchInstance list \<Rightarrow> BeamSearchSequence list" where
  "flatten_beams instances = concat (map beams instances)"

definition instance_start_and_end :: "BeamSearchInstance list \<Rightarrow> (nat \<times> nat) list" where
  "instance_start_and_end instances =
     (let pos = [0] @ accumulate_from 0 (map (\<lambda>instance. length (beams instance)) instances)
      in zip (py_slice_to (- 1) pos) (drop 1 pos))"

text \<open>
  The body of the step loop after the \<^verbatim>\<open>break\<close> test, lines 677--720; \<open>k\<close> is the
  number of calls of \<open>generate\<close> made before.
\<close>

definition beam_search_step ::
  "generate_fn \<Rightarrow> SamplingParams \<Rightarrow> token_id option \<Rightarrow> bool \<Rightarrow> (BeamSearchSequence \<Rightarrow> real)
     \<Rightarrow> int \<Rightarrow> nat \<Rightarrow> BeamSearchInstance list \<Rightarrow> error + BeamSearchInstance list" where
  "beam_search_step generate sp eos ign sort_beams_key bw k instances =
     (let all_beams = flatten_beams instances in
      case generate k (map create_tokens_prompt_from_beam all_beams) sp
             (map lora_request all_beams) of
        Inl e \<Rightarrow> Inl e
      | Inr output \<Rightarrow>
          step_instances eos ign sort_beams_key bw all_beams output
            (zip (instance_start_and_end instances) instances))"

text \<open>
  The step loop, lines 665--720: \<^verbatim>\<open>for _ in range(max_tokens)\<close> with the \<^verbatim>\<open>break\<close> of
  line 675; \<open>n\<close> is the number of iterations left. The second component of the result
  is a log that the source does not have: one entry per call of \<open>generate\<close>, with the
  instances whose beams were submitted and the outcome of that step (the instances after
  pruning, or the exception).
\<close>

type_synonym step_log = "(BeamSearchInstance list \<times> (error + BeamSearchInstance list)) list"

fun beam_search_loop ::
  "generate_fn \<Rightarrow> SamplingParams \<Rightarrow> token_id option \<Rightarrow> bool \<Rightarrow> (BeamSearchSequence \<Rightarrow> real)
     \<Rightarrow> int \<Rightarrow> nat \<Rightarrow> nat \<Rightarrow> BeamSearchInstance list
     \<Rightarrow> (error + BeamSearchInstance list) \<times> step_log" where
  "beam_search_loop generate sp eos ign sort_beams_key bw 0 k instances = (Inr instances, [])"
| "beam_search_loop generate sp eos ign sort_beams_key bw (Suc n) k instances =
     (if length (flatten_beams instances) = 0 then (Inr instances, [])
      else
        (case beam_search_step generate sp eos ign sort_beams_key bw k instances of
           Inl e \<Rightarrow> (Inl e, [(instances, Inl e)])
         | Inr instances' \<Rightarrow>
             (case beam_search_loop generate sp eos ign sort_beams_key bw n (Suc k) instances' of
                (r, trace) \<Rightarrow> (r, (instances, Inr instances') # trace))))"

text \<open>Lines 723--732 for one instance.\<close>

definition finish_instance ::
  "Tokenizer \<Rightarrow> (BeamSearchSequence \<Rightarrow> real) \<Rightarrow> int \<Rightarrow> BeamSearchInstance \<Rightarrow> BeamSearchOutput" where
  "finish_instance tokenizer sort_beams_key bw instance =
     (let completed' = completed instance @ beams instance;
          sorted_completed = py_sorted_reverse sort_beams_key completed';
          best_beams = py_slice_to bw sorted_completed
      in \<lparr> sequences =
             map (\<lambda>beam. beam \<lparr> beam_text := Some (decode tokenizer (tokens beam)) \<rparr>)
               best_beams \<rparr>)"

text \<open>
  \<open>LLM.beam_search\<close>. The progress bar of lines 655--663 has no effect on the result
  and is left out. \<^verbatim>\<open>range(max_tokens)\<close> has \<open>nat max_tokens\<close> elements.
\<close>

definition beam_search ::
  "Tokenizer \<Rightarrow> sort_key_factory \<Rightarrow> generate_fn \<Rightarrow> SamplingParams
     \<Rightarrow> PromptDict list \<Rightarrow> BeamSearchParams \<Rightarrow> lora_arg
     \<Rightarrow> (error + BeamSearchOutput list) \<times> step_log" where
  "beam_search tokenizer create_sort_beams_key_function generate dflt prompts params lora_req =
     (case get_beam_search_lora_requests lora_req prompts of
        Inl e \<Rightarrow> (Inl e, [])
      | Inr lora_requests \<Rightarrow>
          (let sort_beams_key =
                 create_sort_beams_key_function (eos_token_id tokenizer) (length_penalty params)
           in
           case create_instances tokenizer (zip lora_requests prompts) of
             Inl e \<Rightarrow> (Inl e, [])
           | Inr instances \<Rightarrow>
               (case beam_search_loop generate (beam_search_params dflt params)
                       (eos_token_id tokenizer) (ignore_eos params) sort_beams_key
                       (beam_width params) (nat (max_tokens params)) 0 instances of
                  (Inl e, trace) \<Rightarrow> (Inl e, trace)
                | (Inr instances', trace) \<Rightarrow>
                    (Inr (map (finish_instance tokenizer sort_beams_key (beam_width params))
                            instances'),
                     trace))))"

text \<open>
  Two notions used to state the properties. \<open>children\<close> is the list of candidates that
  lines 700--716 build from the beam at position \<open>i\<close> of the batch: those whose new
  token is the end-of-sequence token while \<open>ignore_eos\<close> is false (\<open>want_eos\<close> true),
  or the others. \<open>nonpositive_logprobs\<close> says that every log-probability that
  \<open>beam_search\<close> reads from the outputs of the engine is at most 0.
\<close>

definition children ::
  "token_id option \<Rightarrow> bool \<Rightarrow> bool \<Rightarrow> BeamSearchSequence list \<Rightarrow> RequestOutput list \<Rightarrow> nat
     \<Rightarrow> BeamSearchSequence list" where
  "children eos ign want_eos all_beams output i =
     (case result_logprobs (output ! i) of
        Inr (Some lps) \<Rightarrow>
          map (new_beam (all_beams ! i) lps)
            (filter (\<lambda>item. (Some (fst item) = eos \<and> \<not> ign) = want_eos) lps)
      | _ \<Rightarrow> [])"

definition nonpositive_logprobs :: "RequestOutput list \<Rightarrow> bool" where
  "nonpositive_logprobs output =
     list_all (\<lambda>result. case result_logprobs result of
                          Inr (Some lps) \<Rightarrow> list_all (\<lambda>item. snd item \<le> 0) lps
                        | _ \<Rightarrow> True) output"

section \<open>Request submission and the drain loop (lines 1466--1622)\<close>

text \<open>
  Python's \<^verbatim>\<open>str\<close> of a non-negative integer is its decimal numeral. \<open>py_int\<close> is
  \<^verbatim>\<open>int\<close> on strings: the model reads a non-empty string of the digits 0 to 9 and takes
  every other string for a \<open>ValueError\<close> (Python also accepts a sign, surrounding
  white space and underscores between digits; no identifier made by \<open>str_nat\<close> has them).
\<close>

definition digit_char :: "nat \<Rightarrow> char" where
  "digit_char d = char_of (48 + d)"

fun str_nat :: "nat \<Rightarrow> string" where
  "str_nat n = (if n < 10 then [digit_char n] else str_nat (n div 10) @ [digit_char (n mod 10)])"

declare str_nat.simps [simp del]

definition is_digit :: "char \<Rightarrow> bool" where
  "is_digit c = (48 \<le> (of_char c :: nat) \<and> (of_char c :: nat) \<le> 57)"

definition digit_val :: "char \<Rightarrow> nat" where
  "digit_val c = of_char c - 48"

definition py_int :: "string \<Rightarrow> int option" where
  "py_int s =
     (if s \<noteq> [] \<and> list_all is_digit s
      then Some (int (foldl (\<lambda>a c. 10 * a + digit_val c) 0 s))
      else None)"

text \<open>
  A prompt is a string or a prompt dictionary. The argument \<open>prompts\<close> is one prompt or
  a sequence of prompts; the argument \<open>params\<close> is one parameter object or a sequence of
  them. Parameter objects are mutable and can be shared, so the arguments hold
  references and the objects live in a heap.
\<close>

datatype prompt = PromptStr string | PromptOfDict PromptDict

datatype prompts_arg = PromptsSingle prompt | PromptsSeq "prompt list"

datatype PoolingParams = PoolingParams nat

datatype params_obj = Sampling SamplingParams | Pooling PoolingParams

type_synonym ref = nat
type_synonym heap = "ref \<Rightarrow> params_obj"

datatype params_arg = ParamsSingle ref | ParamsSeq "ref list"

datatype GuidedDecodingRequest = GuidedDecodingRequest nat
datatype PromptAdapterRequest = PromptAdapterRequest nat
datatype SteerVectorRequest = SteerVectorRequest nat
datatype TokenizationKwargs = TokenizationKwargs nat

text \<open>
  The arguments of \<^verbatim>\<open>llm_engine.add_request\<close> at lines 1537--1546. \<open>req_params\<close> is the
  parameter object as it is when the call is made.
\<close>

record request =
  req_request_id :: string
  req_prompt :: prompt
  req_params :: params_obj
  req_lora_request :: "LoRARequest option"
  req_tokenization_kwargs :: "TokenizationKwargs option"
  req_prompt_adapter_request :: "PromptAdapterRequest option"
  req_steer_vector_request :: "SteerVectorRequest option"
  req_priority :: int

text \<open>
  The stepping engine (\<open>vllm/engine/llm_engine.py\<close>) is not among the sources: its
  state is a type parameter and the three methods that the entry point calls are the
  fields of a record. A method that raises returns \<open>Inl\<close>. The engine does not write
  to the caller's parameter objects.
\<close>

record 'e LLMEngine =
  engine_add_request :: "'e \<Rightarrow> request \<Rightarrow> error + 'e"
  engine_has_unfinished_requests :: "'e \<Rightarrow> bool"
  engine_step :: "'e \<Rightarrow> error + RequestOutput list \<times> 'e"

text \<open>
  Modelled from the spec: the class \<^verbatim>\<open>Counter\<close> of \<open>vllm/utils\<close> is not among the
  sources. The spec (sections 2 and 4.4) has the Request Counter issue monotonically
  increasing integers, contiguous within a batch: \<^verbatim>\<open>next\<close> returns the current value
  and advances it by one. The state of the entry point is the counter, the state of the
  engine, and the heap of the caller's parameter objects.
\<close>

record 'e state =
  request_counter :: nat
  llm_engine :: 'e
  heap :: heap

text \<open>\<open>LLM._add_request\<close>, lines 1526--1546.\<close>

definition add_request ::
  "'e LLMEngine \<Rightarrow> prompt \<Rightarrow> params_obj \<Rightarrow> TokenizationKwargs option \<Rightarrow> LoRARequest option
     \<Rightarrow> PromptAdapterRequest option \<Rightarrow> SteerVectorRequest option \<Rightarrow> int
     \<Rightarrow> 'e state \<Rightarrow> (error + unit) \<times> 'e state" where
  "add_request E prompt params tokenization_kwargs lora_req prompt_adapter_req steer_vector_req
       priority s =
     (let request_id = str_nat (request_counter s);
          s1 = s \<lparr> request_counter := request_counter s + 1 \<rparr>
      in case engine_add_request E (llm_engine s1)
                \<lparr> req_request_id = request_id,
                  req_prompt = prompt,
                  req_params = params,
                  req_lora_request = lora_req,
                  req_tokenization_kwargs = tokenization_kwargs,
                  req_prompt_adapter_request = prompt_adapter_req,
                  req_steer_vector_request = steer_vector_req,
                  req_priority = priority \<rparr> of
           Inl e \<Rightarrow> (Inl e, s1)
         | Inr e' \<Rightarrow> (Inr (), s1 \<lparr> llm_engine := e' \<rparr>))"

text \<open>\<open>LLM._add_guided_params\<close>, lines 1548--1569.\<close>

definition guided_decoding_params_of :: "GuidedDecodingRequest \<Rightarrow> GuidedDecodingParams" where
  "guided_decoding_params_of g = (case g of GuidedDecodingRequest n \<Rightarrow> GuidedDecodingParams n)"

definition add_guided_params ::
  "SamplingParams \<Rightarrow> GuidedDecodingRequest option \<Rightarrow> error + SamplingParams" where
  "add_guided_params params guided_options =
     (case guided_options of
        None \<Rightarrow> Inr params
      | Some g \<Rightarrow>
          (if guided_decoding params \<noteq> None
           then Inl (ValueError
                  ''Cannot set both guided_options_request and params.guided_decoding.'')
           else Inr (params \<lparr> guided_decoding := Some (guided_decoding_params_of g) \<rparr>)))"

text \<open>
  Lines 1501--1506: the loop over the parameter objects. Each object is updated in the
  heap; an exception leaves the objects updated so far as they are.
\<close>

fun set_final_only :: "GuidedDecodingRequest option \<Rightarrow> ref list \<Rightarrow> heap \<Rightarrow> (error + unit) \<times> heap" where
  "set_final_only guided_options [] h = (Inr (), h)"
| "set_final_only guided_options (r # rs) h =
     (case h r of
        Pooling pp \<Rightarrow> set_final_only guided_options rs h
      | Sampling sp \<Rightarrow>
          (case add_guided_params sp guided_options of
             Inl e \<Rightarrow> (Inl e, h)
           | Inr sp' \<Rightarrow>
               set_final_only guided_options rs
                 (h (r := Sampling (sp' \<lparr> output_kind := FINAL_ONLY \<rparr>)))))"

definition prompt_list :: "prompts_arg \<Rightarrow> prompt list" where
  "prompt_list prompts = (case prompts of PromptsSingle p \<Rightarrow> [p] | PromptsSeq ps \<Rightarrow> ps)"

definition params_refs :: "params_arg \<Rightarrow> ref list" where
  "params_refs params = (case params of ParamsSingle r \<Rightarrow> [r] | ParamsSeq rs \<Rightarrow> rs)"

text \<open>
  The three conditional subscripts of lines 1517--1523:
  \<^verbatim>\<open>params[i] if isinstance(params, Sequence) else params\<close>, the same for
  \<open>lora_request\<close>, and \<^verbatim>\<open>priority[i] if priority else 0\<close>, where \<^verbatim>\<open>None\<close> and the
  empty list are false.
\<close>

definition select_params :: "params_arg \<Rightarrow> heap \<Rightarrow> nat \<Rightarrow> error + params_obj" where
  "select_params params h i =
     (case params of
        ParamsSingle r \<Rightarrow> Inr (h r)
      | ParamsSeq rs \<Rightarrow> (case py_index rs i of Inl e \<Rightarrow> Inl e | Inr r \<Rightarrow> Inr (h r)))"

definition select_lora :: "lora_arg \<Rightarrow> nat \<Rightarrow> error + LoRARequest option" where
  "select_lora lora_req i =
     (case lora_req of
        LoraNone \<Rightarrow> Inr None
      | LoraSingle l \<Rightarrow> Inr (Some l)
      | LoraSeq ls \<Rightarrow> py_index ls i)"

definition select_priority :: "int list option \<Rightarrow> nat \<Rightarrow> error + int" where
  "select_priority priority i =
     (case priority of
        None \<Rightarrow> Inr 0
      | Some ps \<Rightarrow> (if ps = [] then Inr 0 else py_index ps i))"

text \<open>
  Lines 1514--1524: the loop \<^verbatim>\<open>for i, prompt in enumerate(it)\<close>. The arguments of the
  call are evaluated before \<open>_add_request\<close> runs, so a subscript that raises leaves the
  counter and the engine as they are.
\<close>

fun add_requests_loop ::
  "'e LLMEngine \<Rightarrow> params_arg \<Rightarrow> lora_arg \<Rightarrow> TokenizationKwargs option
     \<Rightarrow> PromptAdapterRequest option \<Rightarrow> SteerVectorRequest option \<Rightarrow> int list option
     \<Rightarrow> nat \<Rightarrow> prompt list \<Rightarrow> 'e state \<Rightarrow> (error + unit) \<times> 'e state" where
  "add_requests_loop E params lora_req tk pa sv priority i [] s = (Inr (), s)"
| "add_requests_loop E params lora_req tk pa sv priority i (prompt # rest) s =
     (case select_params params (heap s) i of
        Inl e \<Rightarrow> (Inl e, s)
      | Inr p \<Rightarrow>
          (case select_lora lora_req i of
             Inl e \<Rightarrow> (Inl e, s)
           | Inr l \<Rightarrow>
               (case select_priority priority i of
                  Inl e \<Rightarrow> (Inl e, s)
                | Inr pr \<Rightarrow>
                    (case add_request E prompt p tk l pa sv pr s of
                       (Inl e, s') \<Rightarrow> (Inl e, s')
                     | (Inr u, s') \<Rightarrow>
                         add_requests_loop E params lora_req tk pa sv priority (Suc i) rest s'))))"

text \<open>
  \<open>LLM._validate_and_add_requests\<close>, lines 1466--1524. The deprecation warning and the
  progress bar have no effect on the state and are left out.
\<close>

definition validate_and_add_requests ::
  "'e LLMEngine \<Rightarrow> prompts_arg \<Rightarrow> params_arg \<Rightarrow> lora_arg \<Rightarrow> PromptAdapterRequest option
     \<Rightarrow> SteerVectorRequest option \<Rightarrow> TokenizationKwargs option
     \<Rightarrow> GuidedDecodingRequest option \<Rightarrow> int list option
     \<Rightarrow> 'e state \<Rightarrow> (error + unit) \<times> 'e state" where
  "validate_and_add_requests E prompts params lora_req pa sv tk guided_options priority s =
     (let ps = prompt_list prompts;
          num_requests = length ps
      in if (case params of ParamsSeq rs \<Rightarrow> length rs \<noteq> num_requests | _ \<Rightarrow> False)
         then (Inl (ValueError ''The lengths of prompts and params must be the same.''), s)
         else if (case lora_req of LoraSeq ls \<Rightarrow> length ls \<noteq> num_requests | _ \<Rightarrow> False)
         then (Inl (ValueError ''The lengths of prompts and lora_request must be the same.''), s)
         else
           (case set_final_only guided_options (params_refs params) (heap s) of
              (Inl e, h) \<Rightarrow> (Inl e, s \<lparr> heap := h \<rparr>)
            | (Inr u, h) \<Rightarrow>
                add_requests_loop E params lora_req tk pa sv priority 0 ps (s \<lparr> heap := h \<rparr>)))"

text \<open>
  \<open>LLM._run_engine\<close>, lines 1571--1622. \<open>use_tqdm\<close> is the truth value of the
  argument (a callable counts as true). The progress bar is an object of the external
  library \<^verbatim>\<open>tqdm\<close>: creating it, \<^verbatim>\<open>pbar.update\<close>, \<^verbatim>\<open>pbar.refresh\<close>,
  \<^verbatim>\<open>pbar.close\<close> and the assignment of \<^verbatim>\<open>pbar.postfix\<close> act on the display only and
  are left out. What the branch of lines 1597--1615 can do to the result is kept: the
  assertion of line 1601 and the two divisions of lines 1603 and 1606 by
  \<^verbatim>\<open>pbar.format_dict["elapsed"]\<close>, which raise \<open>ZeroDivisionError\<close> when the elapsed
  time is 0. The elapsed time comes from the clock of the bar: \<open>elapsed k\<close> is the value
  of read number \<open>k\<close>, and the state of the loop counts the reads.
\<close>

record drain_state =
  drained :: "RequestOutput list"
  total_in_toks :: nat
  total_out_toks :: nat
  clock_reads :: nat

text \<open>Lines 1594--1615: the loop \<^verbatim>\<open>for output in step_outputs\<close>.\<close>

fun collect_finished ::
  "bool \<Rightarrow> (nat \<Rightarrow> real) \<Rightarrow> RequestOutput list \<Rightarrow> drain_state \<Rightarrow> error + drain_state" where
  "collect_finished use_tqdm elapsed [] st = Inr st"
| "collect_finished use_tqdm elapsed (output # rest) st =
     (if finished output
      then
        (let st1 = st \<lparr> drained := drained st @ [output] \<rparr> in
         if use_tqdm
         then
           (if \<not> is_pooling_output output
            then
              (let n = length (outputs output) in
               case prompt_token_ids output of
                 None \<Rightarrow> Inl AssertionError
               | Some ptoks \<Rightarrow>
                   (let tin = total_in_toks st1 + length ptoks * n in
                    if elapsed (clock_reads st1) = 0 then Inl ZeroDivisionError
                    else
                      (let tout = total_out_toks st1 +
                                    sum_list (map (\<lambda>stp. length (co_token_ids stp)) (outputs output))
                       in
                       if elapsed (clock_reads st1 + 1) = 0 then Inl ZeroDivisionError
                       else
                         collect_finished use_tqdm elapsed rest
                           (st1 \<lparr> total_in_toks := tin, total_out_toks := tout,
                                  clock_reads := clock_reads st1 + 2 \<rparr>))))
            else collect_finished use_tqdm elapsed rest st1)
         else collect_finished use_tqdm elapsed rest st1)
      else collect_finished use_tqdm elapsed rest st)"

text \<open>
  Lines 1592--1615: the \<^verbatim>\<open>while\<close> loop runs as long as the engine reports unfinished
  requests, so it need not end: \<open>None\<close> is the loop that does not return. An exception
  of \<^verbatim>\<open>step\<close> or of the body propagates.
\<close>

partial_function (option) drain_loop ::
  "'e LLMEngine \<Rightarrow> bool \<Rightarrow> (nat \<Rightarrow> real) \<Rightarrow> 'e \<Rightarrow> drain_state
     \<Rightarrow> ((error + RequestOutput list) \<times> 'e) option" where
  "drain_loop E use_tqdm elapsed e st =
     (if engine_has_unfinished_requests E e
      then (case engine_step E e of
              Inl err \<Rightarrow> Some (Inl err, e)
            | Inr so \<Rightarrow>
                (case collect_finished use_tqdm elapsed (fst so) st of
                   Inl err \<Rightarrow> Some (Inl err, snd so)
                 | Inr st' \<Rightarrow> drain_loop E use_tqdm elapsed (snd so) st'))
      else Some (Inr (drained st), e))"

text \<open>
  Line 1622: \<^verbatim>\<open>sorted(outputs, key=lambda x: int(x.request_id))\<close>. The keys are
  computed first, one per element; the sort is stable.
\<close>

definition sort_by_request_id :: "RequestOutput list \<Rightarrow> error + RequestOutput list" where
  "sort_by_request_id outs =
     (case those (map (\<lambda>x. py_int (request_id x)) outs) of
        None \<Rightarrow> Inl (ValueError ''invalid literal for int() with base 10'')
      | Some keys \<Rightarrow> Inr (map snd (py_sorted fst (zip keys outs))))"

definition run_engine ::
  "'e LLMEngine \<Rightarrow> bool \<Rightarrow> (nat \<Rightarrow> real) \<Rightarrow> 'e state
     \<Rightarrow> ((error + RequestOutput list) \<times> 'e state) option" where
  "run_engine E use_tqdm elapsed s =
     (case drain_loop E use_tqdm elapsed (llm_engine s)
             \<lparr> drained = [], total_in_toks = 0, total_out_toks = 0, clock_reads = 0 \<rparr> of
        None \<Rightarrow> None
      | Some (Inl err, e') \<Rightarrow> Some (Inl err, s \<lparr> llm_engine := e' \<rparr>)
      | Some (Inr outs, e') \<Rightarrow> Some (sort_by_request_id outs, s \<lparr> llm_engine := e' \<rparr>))"

text \<open>
  Two notions used to state the properties. \<open>engine_trace E e ticks e'\<close>: started in
  state \<open>e\<close>, the engine reports unfinished requests for \<open>length ticks\<close> ticks, answers
  the successive calls of \<^verbatim>\<open>step\<close> with the elements of \<open>ticks\<close> without raising, and
  then, in state \<open>e'\<close>, reports none. \<open>feed\<close> is the state of the engine after the
  requests of a list have been added in order.
\<close>

inductive engine_trace :: "'e LLMEngine \<Rightarrow> 'e \<Rightarrow> RequestOutput list list \<Rightarrow> 'e \<Rightarrow> bool" where
  trace_done: "\<not> engine_has_unfinished_requests E e \<Longrightarrow> engine_trace E e [] e"
| trace_tick: "engine_has_unfinished_requests E e \<Longrightarrow> engine_step E e = Inr (so, e1) \<Longrightarrow>
         engine_trace E e1 ticks e' \<Longrightarrow> engine_trace E e (so # ticks) e'"

fun feed :: "'e LLMEngine \<Rightarrow> 'e \<Rightarrow> request list \<Rightarrow> error + 'e" where
  "feed E e [] = Inr e"
| "feed E e (r # rs) =
     (case engine_add_request E e r of
        Inl x \<Rightarrow> Inl x
      | Inr e' \<Rightarrow> feed E e' rs)"

text \<open>
  The body of the drain loop does not raise when there is no progress bar, or when
  every finished \<^verbatim>\<open>RequestOutput\<close> has its \<open>prompt_token_ids\<close> and the elapsed time is
  never read as 0.
\<close>

definition progress_ok :: "bool \<Rightarrow> (nat \<Rightarrow> real) \<Rightarrow> RequestOutput list \<Rightarrow> bool" where
  "progress_ok use_tqdm elapsed outs =
     (\<not> use_tqdm \<or>
      ((\<forall>k. elapsed k \<noteq> 0) \<and>
       (\<forall>x\<in>set outs. finished x \<and> \<not> is_pooling_output x \<longrightarrow> prompt_token_ids x \<noteq> None)))"

text \<open>
  What lines 1501--1506 do to one parameter object when no guided-decoding options are
  given: a \<^verbatim>\<open>SamplingParams\<close> object gets \<open>output_kind = FINAL_ONLY\<close>, a
  \<^verbatim>\<open>PoolingParams\<close> object is left as it is.
\<close>

definition final_only_obj :: "params_obj \<Rightarrow> params_obj" where
  "final_only_obj obj =
     (case obj of
        Sampling sp \<Rightarrow> Sampling (sp \<lparr> output_kind := FINAL_ONLY \<rparr>)
      | Pooling pp \<Rightarrow> Pooling pp)"

section \<open>A concrete run of beam search\<close>

text \<open>
  One prompt with the tokens \<open>[1, 1]\<close>, beam width 2, two steps, end-of-sequence
  token 2. The engine answers every continuation request with the same three
  candidates: token 5 with log-probability -1, token 2 with -2, token 7 with -3. The key
  of a beam is its cumulative log-probability.
\<close>

definition ex_tokenizer :: Tokenizer where
  "ex_tokenizer = \<lparr> eos_token_id = Some 2, encode = (\<lambda>s. map (\<lambda>c. int (of_char c)) s),
                    decode = (\<lambda>ts. replicate (length ts) CHR ''t'') \<rparr>"

definition ex_sort_key :: sort_key_factory where
  "ex_sort_key eos lp = cum_logprob"

definition ex_dflt :: SamplingParams where
  "ex_dflt = \<lparr> sp_logprobs = None, sp_max_tokens = Some 16, sp_temperature = 1,
               truncate_prompt_tokens = None, guided_decoding = None,
               output_kind = CUMULATIVE, sp_other = 0 \<rparr>"

definition ex_dict :: logprob_dict where
  "ex_dict = [(5, - 1), (2, - 2), (7, - 3)]"

definition ex_output :: "RequestOutput list" where
  "ex_output = replicate 2 \<lparr> request_id = ''0'', finished = True,
                              is_pooling_output = False, prompt_token_ids = None,
                              outputs = [CompletionOutput [] (Some [ex_dict])] \<rparr>"

definition ex_generate :: generate_fn where
  "ex_generate k ps sp ls =
     Inr (map (\<lambda>p. \<lparr> request_id = ''0'', finished = True,
                     is_pooling_output = False, prompt_token_ids = None,
                     outputs = [CompletionOutput [] (Some [ex_dict])] \<rparr>) ps)"

definition ex_prompt :: PromptDict where
  "ex_prompt = \<lparr> key_prompt = None, key_prompt_token_ids = Some [1, 1],
                 key_multi_modal_data = None, key_mm_processor_kwargs = None \<rparr>"

definition ex_params :: BeamSearchParams where
  "ex_params = \<lparr> beam_width = 2, max_tokens = 2, temperature = 0, ignore_eos = False,
                 length_penalty = 1 \<rparr>"

definition ex_beam :: "token_id list \<Rightarrow> real \<Rightarrow> BeamSearchSequence" where
  "ex_beam ts c = \<lparr> tokens = ts, logprobs = replicate (length ts - 2) ex_dict,
                    lora_request = None, cum_logprob = c, beam_text = None,
                    multi_modal_data = None, mm_processor_kwargs = None \<rparr>"

definition ex_instance ::
  "BeamSearchSequence list \<Rightarrow> BeamSearchSequence list \<Rightarrow> BeamSearchInstance" where
  "ex_instance bs cs = \<lparr> prompt_tokens = [1, 1], beams = bs, completed = cs,
                         instance_lora_request = None \<rparr>"

definition ex_insts0 :: "BeamSearchInstance list" where
  "ex_insts0 = [ex_instance [ex_beam [1, 1] 0] []]"

definition ex_insts1 :: "BeamSearchInstance list" where
  "ex_insts1 = [ex_instance [ex_beam [1, 1, 5] (- 1), ex_beam [1, 1, 7] (- 3)]
                            [ex_beam [1, 1, 2] (- 2)]]"

definition ex_insts2 :: "BeamSearchInstance list" where
  "ex_insts2 = [ex_instance [ex_beam [1, 1, 5, 5] (- 2), ex_beam [1, 1, 5, 7] (- 4)]
                            [ex_beam [1, 1, 2] (- 2), ex_beam [1, 1, 5, 2] (- 3),
                             ex_beam [1, 1, 7, 2] (- 5)]]"

definition ex_trace :: step_log where
  "ex_trace = [(ex_insts0, Inr ex_insts1), (ex_insts1, Inr ex_insts2)]"

definition ex_outputs :: "BeamSearchOutput list" where
  "ex_outputs =
     [\<lparr> sequences = [(ex_beam [1, 1, 2] (- 2)) \<lparr> beam_text := Some ''ttt'' \<rparr>,
                      (ex_beam [1, 1, 5, 5] (- 2)) \<lparr> beam_text := Some ''tttt'' \<rparr>] \<rparr>]"

section \<open>A concrete engine\<close>

text \<open>
  An engine whose state is the list of its unfinished requests, each with its identifier
  and the number of ticks it still needs: as many as its prompt has characters. A tick
  reports every unfinished request and finishes those that need one tick. The counter
  starts at 9, so that the identifiers are \<open>9\<close>, \<open>10\<close> and \<open>11\<close>: the request
  submitted first finishes last.
\<close>

definition ex_engine :: "(string \<times> nat) list LLMEngine" where
  "ex_engine =
     \<lparr> engine_add_request =
         (\<lambda>e r. Inr (e @ [(req_request_id r,
                            case req_prompt r of PromptStr t \<Rightarrow> length t
                            | PromptOfDict d \<Rightarrow> 1)])),
       engine_has_unfinished_requests = (\<lambda>e. e \<noteq> []),
       engine_step =
         (\<lambda>e. Inr (map (\<lambda>x. \<lparr> request_id = fst x, finished = (snd x \<le> 1),
                                is_pooling_output = False, prompt_token_ids = Some [],
                                outputs = [] \<rparr>) e,
                    map (\<lambda>x. (fst x, snd x - 1)) (filter (\<lambda>x. 1 < snd x) e))) \<rparr>"

definition ex_heap :: heap where
  "ex_heap = (\<lambda>r. Sampling ex_dflt)"

definition ex_state :: "(string \<times> nat) list state" where
  "ex_state = \<lparr> request_counter = 9, llm_engine = [], heap = ex_heap \<rparr>"

definition ex_prompts :: prompts_arg where
  "ex_prompts = PromptsSeq [PromptStr ''aaa'', PromptStr ''b'', PromptStr ''cc'']"

definition ex_state1 :: "(string \<times> nat) list state" where
  "ex_state1 = \<lparr> request_counter = 12, llm_engine = [(''9'', 3), (''10'', 1), (''11'', 2)],
                 heap = ex_heap (0 := Sampling (ex_dflt \<lparr> output_kind := FINAL_ONLY \<rparr>)) \<rparr>"

text \<open>
  The state after a call that failed when \<open>9\<close> had been submitted, and the prompts of
  the next call.
\<close>

definition ex_stale :: "(string \<times> nat) list state" where
  "ex_stale = \<lparr> request_counter = 10, llm_engine = [(''9'', 3)],
                heap = ex_heap (0 := Sampling (ex_dflt \<lparr> output_kind := FINAL_ONLY \<rparr>)) \<rparr>"

definition ex_next_prompts :: prompts_arg where
  "ex_next_prompts = PromptsSeq [PromptStr ''b'', PromptStr ''cc'']"

definition ex_out :: "string \<Rightarrow> bool \<Rightarrow> RequestOutput" where
  "ex_out rid fin = \<lparr> request_id = rid, finished = fin, is_pooling_output = False,
                      prompt_token_ids = Some [], outputs = [] \<rparr>"

definition ex_ticks :: "RequestOutput list list" where
  "ex_ticks = [[ex_out ''9'' False, ex_out ''10'' True, ex_out ''11'' False],
               [ex_out ''9'' False, ex_out ''11'' True],
               [ex_out ''9'' True]]"

section \<open>Lemmas about the beam search step\<close>

lemma expand_items_eq:
  "expand_items eos ign cur lps items st =
     (fst st @ map (new_beam cur lps) (filter (\<lambda>item. Some (fst item) = eos \<and> \<not> ign) items),
      snd st @ map (new_beam cur lps) (filter (\<lambda>item. \<not> (Some (fst item) = eos \<and> \<not> ign)) items))"
  by (induction items arbitrary: st) auto

lemma accumulate_from_length [simp]: "length (accumulate_from s xs) = length xs"
  by (induction xs arbitrary: s) auto

lemma accumulate_from_nth:
  "i < length xs \<Longrightarrow> accumulate_from s xs ! i = s + sum_list (take (Suc i) xs)"
proof (induction xs arbitrary: s i)
  case Nil then show ?case by simp
next
  case (Cons x xs)
  then show ?case by (cases i) (auto simp: add.assoc)
qed

lemma instance_start_and_end_length [simp]:
  "length (instance_start_and_end insts) = length insts"
  by (simp add: instance_start_and_end_def py_slice_to_def)

lemma instance_start_and_end_nth:
  assumes "i < length insts"
  shows "instance_start_and_end insts ! i =
           (sum_list (map (\<lambda>x. length (beams x)) (take i insts)),
            sum_list (map (\<lambda>x. length (beams x)) (take i insts)) + length (beams (insts ! i)))"
proof -
  let ?ls = "map (\<lambda>instance. length (beams instance)) insts"
  let ?pos = "0 # accumulate_from 0 ?ls"
  have a: "take (length insts) ?pos ! i = sum_list (take i ?ls)"
  proof (cases i)
    case 0 then show ?thesis using assms by simp
  next
    case (Suc j)
    then have "j < length ?ls" using assms by simp
    from accumulate_from_nth[OF this, of 0] Suc assms show ?thesis by simp
  qed
  have b: "accumulate_from 0 ?ls ! i = sum_list (take (Suc i) ?ls)"
    using accumulate_from_nth[of i ?ls 0] assms by simp
  have c: "sum_list (take (Suc i) ?ls) = sum_list (take i ?ls) + length (beams (insts ! i))"
    using assms by (simp add: take_Suc_conv_app_nth)
  show ?thesis using assms a b c
    by (simp add: instance_start_and_end_def py_slice_to_def take_map)
qed

lemma concat_nth_offset:
  assumes "i < length xss" "q < length (xss ! i)"
  shows "concat xss ! (sum_list (map length (take i xss)) + q) = xss ! i ! q"
    and "sum_list (map length (take i xss)) + length (xss ! i) \<le> length (concat xss)"
  using assms
proof (induction xss arbitrary: i)
  case Nil
  { case 1 then show ?case by simp }
  { case 2 then show ?case by simp }
next
  case (Cons xs xss)
  { case 1 then show ?case using Cons.IH(1) by (cases i) (auto simp: nth_append) }
  { case 2 then show ?case using Cons.IH(2) by (cases i) (auto simp: nth_append) }
qed

lemma expand_range_Inr:
  "expand_range eos ign ab out is st = Inr st' \<Longrightarrow>
     fst st' = fst st @ concat (map (children eos ign True ab out) is) \<and>
     snd st' = snd st @ concat (map (children eos ign False ab out) is) \<and>
     (\<forall>i\<in>set is. i < length ab \<and> i < length out)"
proof (induction "is" arbitrary: st)
  case Nil
  then show ?case by simp
next
  case (Cons i "is")
  from Cons.prems have lt: "i < length ab" "i < length out"
    by (auto simp: py_index_def split: if_splits)
  show ?case
  proof (cases "result_logprobs (out ! i)")
    case (Inl e)
    with Cons.prems lt show ?thesis by (simp add: py_index_def)
  next
    case (Inr ol)
    show ?thesis
    proof (cases ol)
      case None
      with Inr Cons.prems lt have "expand_range eos ign ab out is st = Inr st'"
        by (simp add: py_index_def)
      from Cons.IH[OF this] Inr None lt show ?thesis
        by (simp add: children_def)
    next
      case (Some lps)
      with Inr Cons.prems lt
      have "expand_range eos ign ab out is (expand_items eos ign (ab ! i) lps lps st) = Inr st'"
        by (simp add: py_index_def)
      from Cons.IH[OF this] Inr Some lt show ?thesis
        by (simp add: children_def expand_items_eq)
    qed
  qed
qed

lemma set_py_slice_to: "set (py_slice_to n xs) \<subseteq> set xs"
  by (auto simp: py_slice_to_def dest: in_set_takeD)

lemma length_py_slice_to: "0 \<le> n \<Longrightarrow> int (length (py_slice_to n xs)) \<le> n"
  by (simp add: py_slice_to_def)

lemma set_py_sorted_reverse [simp]: "set (py_sorted_reverse k xs) = set xs"
  by (simp add: py_sorted_reverse_def)

lemma step_instance_Inr:
  assumes "step_instance eos ign key bw ab out ((s, e), inst) = Inr inst'"
  shows "beams inst' = py_slice_to bw (py_sorted_reverse key
                          (concat (map (children eos ign False ab out) [s..<e])))"
    and "completed inst' = completed inst @ concat (map (children eos ign True ab out) [s..<e])"
    and "prompt_tokens inst' = prompt_tokens inst"
    and "instance_lora_request inst' = instance_lora_request inst"
    and "\<forall>i. s \<le> i \<and> i < e \<longrightarrow> i < length ab \<and> i < length out"
  using assms expand_range_Inr[of eos ign ab out "[s..<e]" "(completed inst, [])"]
  by (auto simp: step_instance_def split: sum.splits)

lemma step_instances_Inr:
  "step_instances eos ign key bw ab out xs = Inr ys \<Longrightarrow>
     length ys = length xs \<and>
     (\<forall>i<length xs. step_instance eos ign key bw ab out (xs ! i) = Inr (ys ! i))"
proof (induction xs arbitrary: ys)
  case Nil
  then show ?case by simp
next
  case (Cons x xs)
  then show ?case
    by (auto simp: nth_Cons split: sum.splits nat.splits)
qed

lemma flatten_beams_nth:
  assumes "i < length insts" "q < length (beams (insts ! i))"
  shows "flatten_beams insts ! (fst (instance_start_and_end insts ! i) + q) = beams (insts ! i) ! q"
    and "snd (instance_start_and_end insts ! i) \<le> length (flatten_beams insts)"
    and "snd (instance_start_and_end insts ! i) = fst (instance_start_and_end insts ! i) + length (beams (insts ! i))"
  using assms concat_nth_offset[of i "map beams insts" q]
  by (simp_all add: instance_start_and_end_nth flatten_beams_def take_map comp_def)

lemma beam_search_step_Inr:
  assumes "beam_search_step G sp eos ign key bw k insts = Inr insts'"
  shows "\<exists>out. G k (map create_tokens_prompt_from_beam (flatten_beams insts)) sp
                 (map lora_request (flatten_beams insts)) = Inr out \<and>
           length insts' = length insts \<and>
           (\<forall>i<length insts.
              step_instance eos ign key bw (flatten_beams insts) out
                (instance_start_and_end insts ! i, insts ! i) = Inr (insts' ! i))"
  using assms
  by (auto simp: beam_search_step_def Let_def split: sum.splits dest!: step_instances_Inr)

lemma children_parent:
  assumes "c \<in> set (concat (map (children eos ign w (flatten_beams insts) out) [s..<e]))"
    and "i < length insts" and "instance_start_and_end insts ! i = (s, e)"
  shows "\<exists>p lps item. s \<le> p \<and> p < e \<and> result_logprobs (out ! p) = Inr (Some lps) \<and>
            item \<in> set lps \<and> (Some (fst item) = eos \<and> \<not> ign) = w \<and>
            flatten_beams insts ! p \<in> set (beams (insts ! i)) \<and>
            c = new_beam (flatten_beams insts ! p) lps item"
proof -
  from assms(1) obtain p where p: "s \<le> p" "p < e"
    and c: "c \<in> set (children eos ign w (flatten_beams insts) out p)" by auto
  from c obtain lps where lps: "result_logprobs (out ! p) = Inr (Some lps)"
    by (cases "result_logprobs (out ! p)") (auto simp: children_def split: option.splits)
  with c obtain item where item: "item \<in> set lps" "(Some (fst item) = eos \<and> \<not> ign) = w"
    "c = new_beam (flatten_beams insts ! p) lps item"
    by (auto simp: children_def)
  have e: "e = s + length (beams (insts ! i))"
    using assms(2,3) by (simp add: instance_start_and_end_nth)
  with p have q: "p - s < length (beams (insts ! i))" by simp
  from flatten_beams_nth(1)[OF assms(2) q] assms(3) p
  have "flatten_beams insts ! p = beams (insts ! i) ! (p - s)" by simp
  with q have "flatten_beams insts ! p \<in> set (beams (insts ! i))" by simp
  with p lps item show ?thesis by blast
qed

lemma step_active_child:
  assumes "beam_search_step G sp eos ign key bw k insts = Inr insts'"
    and "i < length insts" and "b' \<in> set (beams (insts' ! i))"
  shows "\<exists>b lps item. b \<in> set (beams (insts ! i)) \<and> item \<in> set lps \<and>
            \<not> (Some (fst item) = eos \<and> \<not> ign) \<and> b' = new_beam b lps item"
proof -
  from beam_search_step_Inr[OF assms(1)] assms(2) obtain out where
    st: "step_instance eos ign key bw (flatten_beams insts) out
           (instance_start_and_end insts ! i, insts ! i) = Inr (insts' ! i)" by blast
  obtain s e where se: "instance_start_and_end insts ! i = (s, e)" by (cases "instance_start_and_end insts ! i")
  from step_instance_Inr(1)[OF st[unfolded se]] assms(3)
  have "b' \<in> set (concat (map (children eos ign False (flatten_beams insts) out) [s..<e]))"
    using set_py_slice_to by fastforce
  from children_parent[OF this assms(2) se] show ?thesis by blast
qed

lemma step_completed_child:
  assumes "beam_search_step G sp eos ign key bw k insts = Inr insts'"
    and "i < length insts"
  shows "\<exists>cs. completed (insts' ! i) = completed (insts ! i) @ cs \<and>
           (\<forall>c\<in>set cs. \<exists>b lps item. b \<in> set (beams (insts ! i)) \<and> item \<in> set lps \<and>
              Some (fst item) = eos \<and> \<not> ign \<and> c = new_beam b lps item)"
proof -
  from beam_search_step_Inr[OF assms(1)] assms(2) obtain out where
    st: "step_instance eos ign key bw (flatten_beams insts) out
           (instance_start_and_end insts ! i, insts ! i) = Inr (insts' ! i)" by blast
  obtain s e where se: "instance_start_and_end insts ! i = (s, e)" by (cases "instance_start_and_end insts ! i")
  let ?cs = "concat (map (children eos ign True (flatten_beams insts) out) [s..<e])"
  have "completed (insts' ! i) = completed (insts ! i) @ ?cs"
    using step_instance_Inr(2)[OF st[unfolded se]] .
  moreover have "\<forall>c\<in>set ?cs. \<exists>b lps item. b \<in> set (beams (insts ! i)) \<and> item \<in> set lps \<and>
              Some (fst item) = eos \<and> \<not> ign \<and> c = new_beam b lps item"
  proof
    fix c assume "c \<in> set ?cs"
    from children_parent[OF this assms(2) se] show "\<exists>b lps item. b \<in> set (beams (insts ! i)) \<and> item \<in> set lps \<and>
              Some (fst item) = eos \<and> \<not> ign \<and> c = new_beam b lps item" by blast
  qed
  ultimately show ?thesis by blast
qed

lemma step_frame:
  assumes "beam_search_step G sp eos ign key bw k insts = Inr insts'"
  shows "length insts' = length insts"
    and "i < length insts \<Longrightarrow> prompt_tokens (insts' ! i) = prompt_tokens (insts ! i)"
    and "i < length insts \<Longrightarrow> instance_lora_request (insts' ! i) = instance_lora_request (insts ! i)"
    and "i < length insts \<Longrightarrow> 0 \<le> bw \<Longrightarrow> int (length (beams (insts' ! i))) \<le> bw"
proof -
  from beam_search_step_Inr[OF assms(1)] obtain out where
    len: "length insts' = length insts" and
    st: "\<forall>i<length insts. step_instance eos ign key bw (flatten_beams insts) out
           (instance_start_and_end insts ! i, insts ! i) = Inr (insts' ! i)" by blast
  show "length insts' = length insts" by (rule len)
  { assume i: "i < length insts"
    obtain s e where se: "instance_start_and_end insts ! i = (s, e)" by (cases "instance_start_and_end insts ! i")
    from st i se have sti: "step_instance eos ign key bw (flatten_beams insts) out ((s, e), insts ! i) = Inr (insts' ! i)"
      by auto
    show "prompt_tokens (insts' ! i) = prompt_tokens (insts ! i)"
      using step_instance_Inr(3)[OF sti] .
    show "instance_lora_request (insts' ! i) = instance_lora_request (insts ! i)"
      using step_instance_Inr(4)[OF sti] .
    show "0 \<le> bw \<Longrightarrow> int (length (beams (insts' ! i))) \<le> bw"
      using step_instance_Inr(1)[OF sti] length_py_slice_to by simp }
qed

lemma loop_trace_aux:
  "beam_search_loop G sp eos ign key bw n k insts = (r, trace) \<Longrightarrow>
     length trace \<le> n \<and>
     (\<forall>j<length trace.
         snd (trace ! j) = beam_search_step G sp eos ign key bw (k + j) (fst (trace ! j)) \<and>
         flatten_beams (fst (trace ! j)) \<noteq> []) \<and>
     (trace \<noteq> [] \<longrightarrow> fst (trace ! 0) = insts) \<and>
     (\<forall>j. Suc j < length trace \<longrightarrow> snd (trace ! j) = Inr (fst (trace ! Suc j))) \<and>
     r = (if trace = [] then Inr insts else snd (last trace)) \<and>
     (length trace < n \<longrightarrow> (\<exists>e. r = Inl e) \<or> (\<exists>f. r = Inr f \<and> flatten_beams f = []))"
proof (induction n arbitrary: k insts r trace)
  case 0
  then show ?case by auto
next
  case (Suc n)
  note run = Suc.prems
  show ?case
  proof (cases "flatten_beams insts = []")
    case True
    with run show ?thesis by auto
  next
    case False
    show ?thesis
    proof (cases "beam_search_step G sp eos ign key bw k insts")
      case (Inl e)
      with run False have "r = Inl e" "trace = [(insts, Inl e)]" by auto
      with Inl False show ?thesis by simp
    next
      case (Inr insts')
      obtain r' tr' where rec: "beam_search_loop G sp eos ign key bw n (Suc k) insts' = (r', tr')"
        by (cases "beam_search_loop G sp eos ign key bw n (Suc k) insts'")
      with run False Inr have r: "r = r'" and tr: "trace = (insts, Inr insts') # tr'" by auto
      note ih = Suc.IH[OF rec]
      have a: "length trace \<le> Suc n" using ih tr by simp
      have b: "\<forall>j<length trace.
         snd (trace ! j) = beam_search_step G sp eos ign key bw (k + j) (fst (trace ! j)) \<and>
         flatten_beams (fst (trace ! j)) \<noteq> []"
      proof (intro allI impI)
        fix j assume "j < length trace"
        then show "snd (trace ! j) = beam_search_step G sp eos ign key bw (k + j) (fst (trace ! j)) \<and>
         flatten_beams (fst (trace ! j)) \<noteq> []"
          using ih tr Inr False by (cases j) auto
      qed
      have c: "trace \<noteq> [] \<longrightarrow> fst (trace ! 0) = insts" using tr by simp
      have d: "\<forall>j. Suc j < length trace \<longrightarrow> snd (trace ! j) = Inr (fst (trace ! Suc j))"
      proof (intro allI impI)
        fix j assume "Suc j < length trace"
        then show "snd (trace ! j) = Inr (fst (trace ! Suc j))"
          using ih tr by (cases j) auto
      qed
      have e: "r = (if trace = [] then Inr insts else snd (last trace))"
        using ih r tr by auto
      have f: "length trace < Suc n \<longrightarrow> (\<exists>e. r = Inl e) \<or> (\<exists>f. r = Inr f \<and> flatten_beams f = [])"
        using ih r tr by auto
      from a b c d e f show ?thesis by blast
    qed
  qed
qed

lemma loop_trace:
  assumes "beam_search_loop G sp eos ign key bw n k insts = (r, trace)"
  shows "length trace \<le> n"
    and "j < length trace \<Longrightarrow>
           snd (trace ! j) = beam_search_step G sp eos ign key bw (k + j) (fst (trace ! j))"
    and "j < length trace \<Longrightarrow> flatten_beams (fst (trace ! j)) \<noteq> []"
    and "trace \<noteq> [] \<Longrightarrow> fst (trace ! 0) = insts"
    and "Suc j < length trace \<Longrightarrow> snd (trace ! j) = Inr (fst (trace ! Suc j))"
    and "r = (if trace = [] then Inr insts else snd (last trace))"
    and "length trace < n \<Longrightarrow> (\<exists>e. r = Inl e) \<or> (\<exists>f. r = Inr f \<and> flatten_beams f = [])"
  using loop_trace_aux[OF assms] by blast+

text \<open>Invariants of the instances at the entries of the log.\<close>

lemma loop_invariant:
  assumes run: "beam_search_loop G sp eos ign key bw n k insts = (r, trace)"
    and init: "I k insts"
    and step: "\<And>m xs ys. I m xs \<Longrightarrow> beam_search_step G sp eos ign key bw m xs = Inr ys \<Longrightarrow> I (Suc m) ys"
    and j: "j < length trace"
  shows "I (k + j) (fst (trace ! j))"
  using j
proof (induction j)
  case 0
  then show ?case using loop_trace(4)[OF run] init by auto
next
  case (Suc j)
  then have "I (k + j) (fst (trace ! j))" by simp
  moreover from Suc.prems have "j < length trace" by simp
  from loop_trace(2)[OF run this] loop_trace(5)[OF run Suc.prems]
  have "beam_search_step G sp eos ign key bw (k + j) (fst (trace ! j)) = Inr (fst (trace ! Suc j))"
    by simp
  ultimately show ?case using step by fastforce
qed

lemma create_instances_Inr:
  "create_instances tok xs = Inr insts \<Longrightarrow>
     length insts = length xs \<and>
     (\<forall>i<length xs. create_instance tok (xs ! i) = Inr (insts ! i))"
proof (induction xs arbitrary: insts)
  case Nil
  then show ?case by simp
next
  case (Cons x xs)
  then show ?case by (auto simp: nth_Cons split: sum.splits nat.splits)
qed

lemma create_instance_Inr:
  assumes "create_instance tok (l, p) = Inr inst"
  shows "get_prompt_tokens tok p = Inr (prompt_tokens inst)"
    and "\<exists>b. beams inst = [b] \<and> tokens b = prompt_tokens inst \<and> cum_logprob b = 0"
    and "completed inst = []"
  using assms by (auto simp: create_instance_def new_instance_def split: sum.splits)

lemma get_lora_Inr:
  "get_beam_search_lora_requests lora prompts = Inr lrs \<Longrightarrow> length lrs = length prompts"
  by (auto simp: get_beam_search_lora_requests_def split: lora_arg.splits if_splits)

text \<open>What a run of \<open>beam_search\<close> that reached the step loop consists of.\<close>

lemma beam_search_cases:
  assumes "beam_search tok F G dflt prompts params lora = (r, trace)"
  shows "(\<exists>e. r = Inl e \<and> trace = []) \<or>
         (\<exists>lrs insts0 r'.
            get_beam_search_lora_requests lora prompts = Inr lrs \<and>
            create_instances tok (zip lrs prompts) = Inr insts0 \<and>
            beam_search_loop G (beam_search_params dflt params) (eos_token_id tok)
              (ignore_eos params) (F (eos_token_id tok) (length_penalty params))
              (beam_width params) (nat (max_tokens params)) 0 insts0 = (r', trace) \<and>
            r = (case r' of Inl e \<Rightarrow> Inl e
                 | Inr insts \<Rightarrow>
                     Inr (map (finish_instance tok (F (eos_token_id tok) (length_penalty params))
                                 (beam_width params)) insts)))"
  using assms
  by (auto simp: beam_search_def Let_def split: sum.splits prod.splits)

lemma initial_instances:
  assumes "get_beam_search_lora_requests lora prompts = Inr lrs"
    and "create_instances tok (zip lrs prompts) = Inr insts0"
  shows "length insts0 = length prompts"
    and "i < length prompts \<Longrightarrow> get_prompt_tokens tok (prompts ! i) = Inr (prompt_tokens (insts0 ! i))"
    and "i < length prompts \<Longrightarrow>
           \<exists>b. beams (insts0 ! i) = [b] \<and> tokens b = prompt_tokens (insts0 ! i) \<and> cum_logprob b = 0"
    and "i < length prompts \<Longrightarrow> completed (insts0 ! i) = []"
proof -
  have len: "length lrs = length prompts" using get_lora_Inr[OF assms(1)] .
  from create_instances_Inr[OF assms(2)] len
  have l: "length insts0 = length prompts"
    and ci: "\<forall>i<length prompts. create_instance tok (lrs ! i, prompts ! i) = Inr (insts0 ! i)"
    by auto
  show "length insts0 = length prompts" by (rule l)
  { assume i: "i < length prompts"
    with ci have c: "create_instance tok (lrs ! i, prompts ! i) = Inr (insts0 ! i)" by simp
    show "get_prompt_tokens tok (prompts ! i) = Inr (prompt_tokens (insts0 ! i))"
      using create_instance_Inr(1)[OF c] .
    show "\<exists>b. beams (insts0 ! i) = [b] \<and> tokens b = prompt_tokens (insts0 ! i) \<and> cum_logprob b = 0"
      using create_instance_Inr(2)[OF c] .
    show "completed (insts0 ! i) = []"
      using create_instance_Inr(3)[OF c] . }
qed

text \<open>The instances at every entry of the log keep the prompts' order and tokens.\<close>

lemma loop_frame:
  assumes run: "beam_search_loop G sp eos ign key bw n k insts = (r, trace)"
    and j: "j < length trace"
  shows "length (fst (trace ! j)) = length insts \<and>
         (\<forall>i<length insts. prompt_tokens (fst (trace ! j) ! i) = prompt_tokens (insts ! i))"
proof -
  let ?I = "\<lambda>(m::nat) xs. length xs = length insts \<and>
              (\<forall>i<length insts. prompt_tokens (xs ! i) = prompt_tokens (insts ! i))"
  have "?I (k + j) (fst (trace ! j))"
  proof (rule loop_invariant[where I = ?I, OF run _ _ j])
    show "?I k insts" by simp
  next
    fix m xs ys
    assume "?I m xs" and st: "beam_search_step G sp eos ign key bw m xs = Inr ys"
    then show "?I (Suc m) ys"
      using step_frame(1)[OF st] step_frame(2)[OF st] by auto
  qed
  then show ?thesis by simp
qed

lemma loop_token_length:
  assumes run: "beam_search_loop G sp eos ign key bw n k insts = (r, trace)"
    and init: "\<forall>inst\<in>set insts. \<forall>b\<in>set (beams inst). length (tokens b) = length (prompt_tokens inst) + k"
    and j: "j < length trace"
  shows "\<forall>inst\<in>set (fst (trace ! j)). \<forall>b\<in>set (beams inst).
           length (tokens b) = length (prompt_tokens inst) + (k + j)"
proof -
  let ?I = "\<lambda>(m::nat) xs. \<forall>inst\<in>set xs. \<forall>b\<in>set (beams inst).
              length (tokens b) = length (prompt_tokens inst) + m"
  show ?thesis
  proof (rule loop_invariant[where I = ?I, OF run init _ j])
    fix m xs ys
    assume I: "?I m xs" and st: "beam_search_step G sp eos ign key bw m xs = Inr ys"
    show "?I (Suc m) ys"
    proof (intro ballI)
      fix inst b assume "inst \<in> set ys" "b \<in> set (beams inst)"
      then obtain i where i: "i < length ys" "inst = ys ! i" by (auto simp: in_set_conv_nth)
      with step_frame(1)[OF st] have ix: "i < length xs" by simp
      from step_active_child[OF st ix] \<open>b \<in> set (beams inst)\<close> i
      obtain b0 lps item where b0: "b0 \<in> set (beams (xs ! i))" "b = new_beam b0 lps item" by blast
      from I ix b0 have "length (tokens b0) = length (prompt_tokens (xs ! i)) + m" by simp
      with b0 step_frame(2)[OF st ix] i
      show "length (tokens b) = length (prompt_tokens inst) + Suc m"
        by (simp add: new_beam_def)
    qed
  qed
qed

lemma step_child_origin:
  assumes st: "beam_search_step G sp eos ign key bw k insts = Inr insts'"
    and gen: "G k (map create_tokens_prompt_from_beam (flatten_beams insts)) sp
               (map lora_request (flatten_beams insts)) = Inr out"
    and i: "i < length insts"
    and b: "b' \<in> set (beams (insts' ! i)) \<or>
            b' \<in> set (drop (length (completed (insts ! i))) (completed (insts' ! i)))"
  shows "\<exists>p lps item. p < length out \<and> result_logprobs (out ! p) = Inr (Some lps) \<and>
            item \<in> set lps \<and> flatten_beams insts ! p \<in> set (beams (insts ! i)) \<and>
            b' = new_beam (flatten_beams insts ! p) lps item"
proof -
  from beam_search_step_Inr[OF st] gen i have
    sti: "step_instance eos ign key bw (flatten_beams insts) out
           (instance_start_and_end insts ! i, insts ! i) = Inr (insts' ! i)" by auto
  obtain s e where se: "instance_start_and_end insts ! i = (s, e)"
    by (cases "instance_start_and_end insts ! i")
  note si = step_instance_Inr[OF sti[unfolded se]]
  from b have "\<exists>w. b' \<in> set (concat (map (children eos ign w (flatten_beams insts) out) [s..<e]))"
  proof
    assume "b' \<in> set (beams (insts' ! i))"
    with si(1) set_py_slice_to[of bw] show ?thesis by fastforce
  next
    assume "b' \<in> set (drop (length (completed (insts ! i))) (completed (insts' ! i)))"
    with si(2) show ?thesis by auto
  qed
  then obtain w where "b' \<in> set (concat (map (children eos ign w (flatten_beams insts) out) [s..<e]))" ..
  from children_parent[OF this i se] si(5) show ?thesis by blast
qed

lemma py_sorted_reverse_sorted:
  "sorted_wrt (\<lambda>a b. k b \<le> k a) (py_sorted_reverse k xs)"
proof -
  have "sorted (map k (sort_key k (rev xs)))" by simp
  then have "sorted_wrt (\<lambda>a b. k a \<le> k b) (sort_key k (rev xs))" by (simp add: sorted_map)
  then show ?thesis by (simp add: py_sorted_reverse_def sorted_wrt_rev)
qed

lemma mset_py_sorted_reverse [simp]: "mset (py_sorted_reverse k xs) = mset xs"
  by (simp add: py_sorted_reverse_def)

lemma py_slice_to_take: "\<exists>m. py_slice_to n xs = take m xs"
  by (auto simp: py_slice_to_def)

lemma top_selection:
  fixes k :: "'a \<Rightarrow> real"
  assumes "best = py_slice_to n (py_sorted_reverse k xs)"
  shows "sorted_wrt (\<lambda>a b. k b \<le> k a) best"
    and "mset best \<subseteq># mset xs"
    and "length best = (if 0 \<le> n then min (nat n) (length xs) else length xs - nat (- n))"
    and "\<forall>x\<in>#(mset xs - mset best). \<forall>y\<in>set best. k x \<le> k y"
proof -
  let ?ys = "py_sorted_reverse k xs"
  from py_slice_to_take[of n ?ys] assms obtain m where m: "best = take m ?ys" by auto
  have ys: "?ys = take m ?ys @ drop m ?ys" by simp
  have s: "sorted_wrt (\<lambda>a b. k b \<le> k a) (take m ?ys @ drop m ?ys)"
    using py_sorted_reverse_sorted[of k xs] by simp
  from s show "sorted_wrt (\<lambda>a b. k b \<le> k a) best"
    unfolding sorted_wrt_append m by blast
  have ms: "mset xs = mset best + mset (drop m ?ys)"
    using m by (metis append_take_drop_id mset_append mset_py_sorted_reverse)
  then show "mset best \<subseteq># mset xs" by simp
  show "length best = (if 0 \<le> n then min (nat n) (length xs) else length xs - nat (- n))"
    using assms by (auto simp: py_slice_to_def py_sorted_reverse_def)
  from ms have "mset xs - mset best = mset (drop m ?ys)" by simp
  moreover from s have "\<forall>y\<in>set (take m ?ys). \<forall>x\<in>set (drop m ?ys). k x \<le> k y"
    unfolding sorted_wrt_append by blast
  ultimately show "\<forall>x\<in>#(mset xs - mset best). \<forall>y\<in>set best. k x \<le> k y"
    using m by auto
qed

section \<open>The concrete run, evaluated\<close>

lemma ex_step0:
  "beam_search_step ex_generate sp (Some 2) False cum_logprob 2 k ex_insts0 = Inr ex_insts1"
  by (simp add: beam_search_step_def flatten_beams_def ex_instance_def ex_generate_def
      instance_start_and_end_def py_slice_to_def step_instance_def py_index_def
      result_logprobs_def ex_dict_def new_beam_def ex_beam_def py_sorted_reverse_def
      ex_insts0_def ex_insts1_def)

lemma ex_step1:
  "beam_search_step ex_generate sp (Some 2) False cum_logprob 2 k ex_insts1 = Inr ex_insts2"
  by (simp add: beam_search_step_def flatten_beams_def ex_instance_def ex_generate_def
      instance_start_and_end_def py_slice_to_def step_instance_def py_index_def
      result_logprobs_def ex_dict_def new_beam_def ex_beam_def py_sorted_reverse_def
      upt_rec numeral_2_eq_2 ex_insts1_def ex_insts2_def)

lemma ex_flatten:
  "flatten_beams ex_insts0 = [ex_beam [1, 1] 0]"
  "flatten_beams ex_insts1 = [ex_beam [1, 1, 5] (- 1), ex_beam [1, 1, 7] (- 3)]"
  "flatten_beams ex_insts2 = [ex_beam [1, 1, 5, 5] (- 2), ex_beam [1, 1, 5, 7] (- 4)]"
  by (simp_all add: flatten_beams_def ex_insts0_def ex_insts1_def ex_insts2_def ex_instance_def)

lemma ex_loop:
  "beam_search_loop ex_generate sp (Some 2) False cum_logprob 2 2 0 ex_insts0
     = (Inr ex_insts2, ex_trace)"
  by (simp add: numeral_2_eq_2 ex_step0 ex_step1 ex_trace_def ex_flatten)

lemma ex_finish:
  "map (finish_instance ex_tokenizer cum_logprob 2) ex_insts2 = ex_outputs"
  by (simp add: finish_instance_def ex_instance_def ex_beam_def py_sorted_reverse_def
      py_slice_to_def ex_tokenizer_def ex_outputs_def ex_insts2_def
      numeral_2_eq_2 numeral_3_eq_3)

lemma ex_create:
  "create_instances ex_tokenizer [(None, ex_prompt)] = Inr ex_insts0"
  by (simp add: create_instance_def get_prompt_tokens_def ex_prompt_def new_instance_def
      ex_instance_def ex_beam_def ex_insts0_def)

lemma ex_run:
  "beam_search ex_tokenizer ex_sort_key ex_generate ex_dflt [ex_prompt] ex_params LoraNone
     = (Inr ex_outputs, ex_trace)"
  by (simp add: beam_search_def get_beam_search_lora_requests_def ex_create ex_params_def
      ex_tokenizer_def[THEN arg_cong, of eos_token_id] ex_sort_key_def ex_loop ex_finish
      del: beam_search_loop.simps create_instances.simps)

section \<open>Lemmas about submission and the drain loop\<close>

lemma digit_char_props:
  assumes "d < 10"
  shows "is_digit (digit_char d)" and "digit_val (digit_char d) = d"
  using assms by (simp_all add: is_digit_def digit_val_def digit_char_def)

lemma str_nat_digits: "str_nat n \<noteq> [] \<and> list_all is_digit (str_nat n)"
proof (induction n rule: str_nat.induct)
  case (1 n)
  show ?case
  proof (cases "n < 10")
    case True
    then show ?thesis by (simp add: str_nat.simps[of n] digit_char_props)
  next
    case False
    with 1 have "list_all is_digit (str_nat (n div 10))" by simp
    moreover have "is_digit (digit_char (n mod 10))" by (simp add: digit_char_props)
    ultimately show ?thesis using False by (simp add: str_nat.simps[of n])
  qed
qed

lemma str_nat_value: "foldl (\<lambda>a c. 10 * a + digit_val c) 0 (str_nat n) = n"
proof (induction n rule: str_nat.induct)
  case (1 n)
  show ?case
  proof (cases "n < 10")
    case True
    then show ?thesis by (simp add: str_nat.simps[of n] digit_char_props)
  next
    case False
    with 1 have "foldl (\<lambda>a c. 10 * a + digit_val c) 0 (str_nat (n div 10)) = n div 10" by simp
    then show ?thesis using False
      by (simp add: str_nat.simps[of n] digit_char_props)
  qed
qed

lemma py_int_str_nat [simp]: "py_int (str_nat n) = Some (int n)"
  using str_nat_digits[of n] str_nat_value[of n] by (simp add: py_int_def)

lemma str_nat_inj: "str_nat m = str_nat n \<Longrightarrow> m = n"
  by (metis py_int_str_nat option.inject of_nat_eq_iff)

lemma collect_finished_ok:
  "progress_ok use_tqdm elapsed outs \<Longrightarrow>
     \<exists>st'. collect_finished use_tqdm elapsed outs st = Inr st' \<and>
            drained st' = drained st @ filter finished outs"
proof (induction outs arbitrary: st)
  case Nil
  then show ?case by simp
next
  case (Cons x outs)
  from Cons.prems have ok: "progress_ok use_tqdm elapsed outs"
    by (auto simp: progress_ok_def)
  note ih = Cons.IH[OF ok]
  show ?case
  proof (cases "finished x")
    case False
    with ih[of st] show ?thesis by simp
  next
    case fin: True
    let ?st1 = "st \<lparr> drained := drained st @ [x] \<rparr>"
    show ?thesis
    proof (cases "use_tqdm \<and> \<not> is_pooling_output x")
      case False
      with fin ih[of ?st1] show ?thesis by (auto simp: Let_def)
    next
      case True
      with Cons.prems fin obtain ptoks where p: "prompt_token_ids x = Some ptoks"
        and el: "\<forall>k. elapsed k \<noteq> 0"
        by (auto simp: progress_ok_def)
      let ?st2 = "?st1 \<lparr> total_in_toks := total_in_toks ?st1 + length ptoks * length (outputs x),
                         total_out_toks := total_out_toks ?st1 +
                           sum_list (map (\<lambda>stp. length (co_token_ids stp)) (outputs x)),
                         clock_reads := clock_reads ?st1 + 2 \<rparr>"
      from True fin p el have "collect_finished use_tqdm elapsed (x # outs) st =
                                 collect_finished use_tqdm elapsed outs ?st2"
        by (simp add: Let_def)
      with ih[of ?st2] fin show ?thesis by auto
    qed
  qed
qed

lemma drain_loop_trace:
  "engine_trace E e ticks e' \<Longrightarrow> progress_ok use_tqdm elapsed (concat ticks) \<Longrightarrow>
     drain_loop E use_tqdm elapsed e st =
       Some (Inr (drained st @ filter finished (concat ticks)), e')"
proof (induction arbitrary: st rule: engine_trace.induct)
  case (trace_done E e)
  then show ?case by (subst drain_loop.simps) simp
next
  case (trace_tick E e so e1 ticks e')
  from trace_tick.prems have ok1: "progress_ok use_tqdm elapsed so"
    and ok2: "progress_ok use_tqdm elapsed (concat ticks)"
    by (auto simp: progress_ok_def)
  from collect_finished_ok[OF ok1, of st] obtain st' where
    c: "collect_finished use_tqdm elapsed so st = Inr st'" and
    d: "drained st' = drained st @ filter finished so" by blast
  from trace_tick.IH[OF ok2, of st'] d trace_tick.hyps c
  show ?case by (subst drain_loop.simps) simp
qed

lemma those_map_Some: "those (map (\<lambda>x. Some (f x)) xs) = Some (map f xs)"
  by (induction xs) auto

lemma insort_key_zip:
  "map snd (insort_key fst (f x, x) (zip (map f ys) ys)) = insort_key f x ys \<and>
   insort_key fst (f x, x) (zip (map f ys) ys) = zip (map f (insort_key f x ys)) (insort_key f x ys)"
  by (induction ys) auto

lemma sort_key_zip:
  "sort_key fst (zip (map f xs) xs) = zip (map f (sort_key f xs)) (sort_key f xs)"
proof (induction xs)
  case Nil
  then show ?case by simp
next
  case (Cons x xs)
  then show ?case using insort_key_zip[of f x "sort_key f xs"] by simp
qed

lemma sort_by_request_id_ok:
  assumes "\<forall>x\<in>set outs. py_int (request_id x) = Some (k x)"
  shows "sort_by_request_id outs = Inr (sort_key k outs)"
proof -
  have eq: "map (\<lambda>x. py_int (request_id x)) outs = map (\<lambda>x. Some (k x)) outs"
    using assms by simp
  have "those (map (\<lambda>x. py_int (request_id x)) outs) = Some (map k outs)"
    unfolding eq by (rule those_map_Some)
  then show ?thesis
    by (simp add: sort_by_request_id_def py_sorted_def sort_key_zip)
qed

lemma map_sort_key: "map f (sort_key f xs) = sort (map f xs)"
proof (induction xs)
  case Nil
  then show ?case by simp
next
  case (Cons x xs)
  have ins: "map f (insort_key f x ys) = insort (f x) (map f ys)" for ys
    by (induction ys) auto
  from Cons show ?case by (simp add: ins)
qed

lemma add_request_result:
  "add_request E prompt p tk l pa sv pr s = (r, s') \<Longrightarrow>
     heap s' = heap s \<and> request_counter s' = request_counter s + 1 \<and>
     (case r of
        Inl e \<Rightarrow> True
      | Inr u \<Rightarrow>
          engine_add_request E (llm_engine s)
            \<lparr> req_request_id = str_nat (request_counter s), req_prompt = prompt,
              req_params = p, req_lora_request = l, req_tokenization_kwargs = tk,
              req_prompt_adapter_request = pa, req_steer_vector_request = sv,
              req_priority = pr \<rparr> = Inr (llm_engine s'))"
  by (auto simp: add_request_def Let_def split: sum.splits)

lemma add_requests_loop_frame:
  "add_requests_loop E params lora tk pa sv priority i ps s = (r, s') \<Longrightarrow>
     heap s' = heap s \<and> request_counter s \<le> request_counter s'"
proof (induction ps arbitrary: i s)
  case Nil
  then show ?case by simp
next
  case (Cons prompt rest)
  show ?case
  proof (cases "select_params params (heap s) i")
    case (Inl e) with Cons.prems show ?thesis by simp
  next
    case p: (Inr p)
    show ?thesis
    proof (cases "select_lora lora i")
      case (Inl e) with Cons.prems p show ?thesis by simp
    next
      case l: (Inr l)
      show ?thesis
      proof (cases "select_priority priority i")
        case (Inl e) with Cons.prems p l show ?thesis by simp
      next
        case pr: (Inr pr)
        obtain r1 s1 where a: "add_request E prompt p tk l pa sv pr s = (r1, s1)"
          by (cases "add_request E prompt p tk l pa sv pr s")
        note ar = add_request_result[OF a]
        show ?thesis
        proof (cases r1)
          case (Inl e)
          with Cons.prems p l pr a ar show ?thesis by simp
        next
          case (Inr u)
          with Cons.prems p l pr a
          have "add_requests_loop E params lora tk pa sv priority (Suc i) rest s1 = (r, s')"
            by simp
          from Cons.IH[OF this] ar show ?thesis by simp
        qed
      qed
    qed
  qed
qed

lemma add_requests_loop_Inr:
  "add_requests_loop E params lora tk pa sv priority i ps s = (Inr u, s') \<Longrightarrow>
     \<exists>reqs. length reqs = length ps \<and>
       feed E (llm_engine s) reqs = Inr (llm_engine s') \<and>
       request_counter s' = request_counter s + length ps \<and>
       (\<forall>k<length ps.
          req_request_id (reqs ! k) = str_nat (request_counter s + k) \<and>
          req_prompt (reqs ! k) = ps ! k \<and>
          select_params params (heap s) (i + k) = Inr (req_params (reqs ! k)) \<and>
          select_lora lora (i + k) = Inr (req_lora_request (reqs ! k)) \<and>
          select_priority priority (i + k) = Inr (req_priority (reqs ! k)) \<and>
          req_tokenization_kwargs (reqs ! k) = tk \<and>
          req_prompt_adapter_request (reqs ! k) = pa \<and>
          req_steer_vector_request (reqs ! k) = sv)"
proof (induction ps arbitrary: i s)
  case Nil
  then show ?case by (auto intro: exI[of _ "[]"])
next
  case (Cons prompt rest)
  from Cons.prems obtain p where p: "select_params params (heap s) i = Inr p"
    by (cases "select_params params (heap s) i") auto
  from Cons.prems p obtain l where l: "select_lora lora i = Inr l"
    by (cases "select_lora lora i") auto
  from Cons.prems p l obtain pr where pr: "select_priority priority i = Inr pr"
    by (cases "select_priority priority i") auto
  obtain r1 s1 where a: "add_request E prompt p tk l pa sv pr s = (r1, s1)"
    by (cases "add_request E prompt p tk l pa sv pr s")
  from Cons.prems p l pr a obtain u1 where r1: "r1 = Inr u1"
    by (cases r1) auto
  let ?rq = "\<lparr> req_request_id = str_nat (request_counter s), req_prompt = prompt,
              req_params = p, req_lora_request = l, req_tokenization_kwargs = tk,
              req_prompt_adapter_request = pa, req_steer_vector_request = sv,
              req_priority = pr \<rparr>"
  from add_request_result[OF a] r1
  have hs: "heap s1 = heap s" and cs: "request_counter s1 = request_counter s + 1"
    and es: "engine_add_request E (llm_engine s) ?rq = Inr (llm_engine s1)"
    by auto
  from Cons.prems p l pr a r1
  have rec: "add_requests_loop E params lora tk pa sv priority (Suc i) rest s1 = (Inr u, s')"
    by simp
  from Cons.IH[OF rec] obtain reqs where
    len: "length reqs = length rest" and
    fd: "feed E (llm_engine s1) reqs = Inr (llm_engine s')" and
    cnt: "request_counter s' = request_counter s1 + length rest" and
    each: "\<forall>k<length rest.
          req_request_id (reqs ! k) = str_nat (request_counter s1 + k) \<and>
          req_prompt (reqs ! k) = rest ! k \<and>
          select_params params (heap s1) (Suc i + k) = Inr (req_params (reqs ! k)) \<and>
          select_lora lora (Suc i + k) = Inr (req_lora_request (reqs ! k)) \<and>
          select_priority priority (Suc i + k) = Inr (req_priority (reqs ! k)) \<and>
          req_tokenization_kwargs (reqs ! k) = tk \<and>
          req_prompt_adapter_request (reqs ! k) = pa \<and>
          req_steer_vector_request (reqs ! k) = sv"
    by blast
  let ?reqs = "?rq # reqs"
  have "length ?reqs = length (prompt # rest)" using len by simp
  moreover have "feed E (llm_engine s) ?reqs = Inr (llm_engine s')" using es fd by simp
  moreover have "request_counter s' = request_counter s + length (prompt # rest)"
    using cnt cs by simp
  moreover have "\<forall>k<length (prompt # rest).
          req_request_id (?reqs ! k) = str_nat (request_counter s + k) \<and>
          req_prompt (?reqs ! k) = (prompt # rest) ! k \<and>
          select_params params (heap s) (i + k) = Inr (req_params (?reqs ! k)) \<and>
          select_lora lora (i + k) = Inr (req_lora_request (?reqs ! k)) \<and>
          select_priority priority (i + k) = Inr (req_priority (?reqs ! k)) \<and>
          req_tokenization_kwargs (?reqs ! k) = tk \<and>
          req_prompt_adapter_request (?reqs ! k) = pa \<and>
          req_steer_vector_request (?reqs ! k) = sv"
  proof (intro allI impI)
    fix k assume k: "k < length (prompt # rest)"
    show "req_request_id (?reqs ! k) = str_nat (request_counter s + k) \<and>
          req_prompt (?reqs ! k) = (prompt # rest) ! k \<and>
          select_params params (heap s) (i + k) = Inr (req_params (?reqs ! k)) \<and>
          select_lora lora (i + k) = Inr (req_lora_request (?reqs ! k)) \<and>
          select_priority priority (i + k) = Inr (req_priority (?reqs ! k)) \<and>
          req_tokenization_kwargs (?reqs ! k) = tk \<and>
          req_prompt_adapter_request (?reqs ! k) = pa \<and>
          req_steer_vector_request (?reqs ! k) = sv"
    proof (cases k)
      case 0
      with p l pr show ?thesis by simp
    next
      case (Suc m)
      with k have "m < length rest" by simp
      with each Suc hs cs show ?thesis by simp
    qed
  qed
  ultimately show ?case by blast
qed

lemma final_only_obj_idem [simp]: "final_only_obj (final_only_obj obj) = final_only_obj obj"
  by (cases obj) (simp_all add: final_only_obj_def)

lemma set_final_only_None:
  "set_final_only None rs h =
     (Inr (), \<lambda>r. if r \<in> set rs then final_only_obj (h r) else h r)"
proof (induction rs arbitrary: h)
  case Nil
  then show ?case by simp
next
  case (Cons r rs)
  show ?case
  proof (cases "h r")
    case (Sampling sp)
    then have "set_final_only None (r # rs) h =
                 set_final_only None rs (h (r := final_only_obj (h r)))"
      by (simp add: add_guided_params_def final_only_obj_def)
    also have "\<dots> = (Inr (), \<lambda>x. if x \<in> set (r # rs) then final_only_obj (h x) else h x)"
      unfolding Cons.IH by (auto simp: fun_eq_iff)
    finally show ?thesis .
  next
    case (Pooling pp)
    then have "set_final_only None (r # rs) h = set_final_only None rs h" by simp
    also have "\<dots> = (Inr (), \<lambda>x. if x \<in> set (r # rs) then final_only_obj (h x) else h x)"
      unfolding Cons.IH using Pooling by (auto simp: fun_eq_iff final_only_obj_def)
    finally show ?thesis .
  qed
qed

lemma validate_shape_ok:
  assumes "\<forall>rs. params = ParamsSeq rs \<longrightarrow> length rs = length (prompt_list prompts)"
    and "\<forall>ls. lora = LoraSeq ls \<longrightarrow> length ls = length (prompt_list prompts)"
  shows "validate_and_add_requests E prompts params lora pa sv tk guided priority s =
           (case set_final_only guided (params_refs params) (heap s) of
              (Inl e, h) \<Rightarrow> (Inl e, s \<lparr> heap := h \<rparr>)
            | (Inr u, h) \<Rightarrow>
                add_requests_loop E params lora tk pa sv priority 0 (prompt_list prompts)
                  (s \<lparr> heap := h \<rparr>))"
  using assms
  by (auto simp: validate_and_add_requests_def Let_def split: params_arg.splits lora_arg.splits)

lemma validate_Inr:
  assumes "validate_and_add_requests E prompts params lora pa sv tk guided priority s = (Inr u, s1)"
  shows "\<exists>reqs. length reqs = length (prompt_list prompts) \<and>
       feed E (llm_engine s) reqs = Inr (llm_engine s1) \<and>
       request_counter s1 = request_counter s + length (prompt_list prompts) \<and>
       (\<forall>k<length (prompt_list prompts).
          req_request_id (reqs ! k) = str_nat (request_counter s + k) \<and>
          req_prompt (reqs ! k) = prompt_list prompts ! k \<and>
          select_params params (heap s1) k = Inr (req_params (reqs ! k)) \<and>
          select_lora lora k = Inr (req_lora_request (reqs ! k)) \<and>
          select_priority priority k = Inr (req_priority (reqs ! k)) \<and>
          req_tokenization_kwargs (reqs ! k) = tk \<and>
          req_prompt_adapter_request (reqs ! k) = pa \<and>
          req_steer_vector_request (reqs ! k) = sv)"
proof -
  from assms obtain h where
    lp: "add_requests_loop E params lora tk pa sv priority 0 (prompt_list prompts)
           (s \<lparr> heap := h \<rparr>) = (Inr u, s1)"
    by (auto simp: validate_and_add_requests_def Let_def split: if_splits prod.splits sum.splits)
  from add_requests_loop_frame[OF lp] have hp: "heap s1 = h" by simp
  from add_requests_loop_Inr[OF lp] hp show ?thesis by simp
qed

lemma select_params_ref:
  "select_params params h k = Inr obj \<Longrightarrow> \<exists>r\<in>set (params_refs params). obj = h r"
  by (auto simp: select_params_def params_refs_def py_index_def
      split: params_arg.splits if_splits)

text \<open>The two length checks of lines 1493--1499 leave the state as it is.\<close>

lemma validate_params_length_mismatch:
  "length rs \<noteq> length (prompt_list prompts) \<Longrightarrow>
     validate_and_add_requests E prompts (ParamsSeq rs) lora pa sv tk guided priority s =
       (Inl (ValueError ''The lengths of prompts and params must be the same.''), s)"
  by (simp add: validate_and_add_requests_def Let_def)

lemma validate_lora_length_mismatch:
  "length ls \<noteq> length (prompt_list prompts) \<Longrightarrow>
     \<exists>msg. validate_and_add_requests E prompts params (LoraSeq ls) pa sv tk guided priority s =
       (Inl (ValueError msg), s)"
  by (simp add: validate_and_add_requests_def Let_def split: params_arg.splits)

text \<open>The concrete engine, evaluated.\<close>

lemma ex_str_nat:
  "str_nat 9 = ''9''" "str_nat 10 = ''10''" "str_nat 11 = ''11''"
  by code_simp+

lemma ex_sub:
  "validate_and_add_requests ex_engine ex_prompts (ParamsSingle 0) LoraNone None None None None
     None ex_state = (Inr (), ex_state1)"
  by (simp add: validate_and_add_requests_def prompt_list_def ex_prompts_def params_refs_def
      ex_state_def ex_heap_def add_guided_params_def select_params_def select_lora_def
      select_priority_def add_request_def ex_engine_def ex_str_nat ex_state1_def)

lemma ex_engine_trace: "engine_trace ex_engine (llm_engine ex_state1) ex_ticks []"
proof -
  have t3: "engine_trace ex_engine [] [] []"
    by (rule engine_trace.trace_done) (simp add: ex_engine_def)
  have t2: "engine_trace ex_engine [(''9'', 1)] [[ex_out ''9'' True]] []"
    by (rule engine_trace.trace_tick[OF _ _ t3]) (simp_all add: ex_engine_def ex_out_def)
  have t1: "engine_trace ex_engine [(''9'', 2), (''11'', 1)]
              [[ex_out ''9'' False, ex_out ''11'' True], [ex_out ''9'' True]] []"
    by (rule engine_trace.trace_tick[OF _ _ t2]) (simp_all add: ex_engine_def ex_out_def)
  have t0: "engine_trace ex_engine [(''9'', 3), (''10'', 1), (''11'', 2)] ex_ticks []"
    unfolding ex_ticks_def
    by (rule engine_trace.trace_tick[OF _ _ t1]) (simp_all add: ex_engine_def ex_out_def)
  then show ?thesis by (simp add: ex_state1_def)
qed

text \<open>
  What the drain loop does for an engine that holds the requests of this call only. A
  batch of \<open>N\<close> prompts is submitted with the identifiers \<open>str(c)\<close>, ...,
  \<open>str(c + N - 1)\<close> in input order, \<open>c\<close> being the counter before the call. When the
  engine then reaches a state without unfinished requests, the outputs it marked
  finished on the way are one for each of these identifiers, in whatever order and on
  whatever ticks, and the progress accounting does not raise, the drain loop returns:
  its result has exactly \<open>N\<close> outputs, they are the finished outputs of the ticks, and
  the output at position \<open>i\<close> carries the identifier of the prompt at position \<open>i\<close>,
  whose numeric value is \<open>c + i\<close>.
\<close>

lemma run_engine_outputs_in_submission_order:
  assumes sub: "validate_and_add_requests E prompts params lora pa sv tk guided priority s = (Inr (), s1)"
    and tr: "engine_trace E (llm_engine s1) ticks e'"
    and ok: "progress_ok use_tqdm elapsed (concat ticks)"
    and contract: "mset (map request_id (filter finished (concat ticks))) =
                   mset (map (\<lambda>i. str_nat (request_counter s + i)) [0..<length (prompt_list prompts)])"
  shows "\<exists>outs reqs.
           run_engine E use_tqdm elapsed s1 = Some (Inr outs, s1 \<lparr> llm_engine := e' \<rparr>) \<and>
           length outs = length (prompt_list prompts) \<and>
           mset outs = mset (filter finished (concat ticks)) \<and>
           length reqs = length (prompt_list prompts) \<and>
           feed E (llm_engine s) reqs = Inr (llm_engine s1) \<and>
           (\<forall>i<length (prompt_list prompts).
              req_prompt (reqs ! i) = prompt_list prompts ! i \<and>
              req_request_id (reqs ! i) = str_nat (request_counter s + i) \<and>
              request_id (outs ! i) = req_request_id (reqs ! i) \<and>
              py_int (request_id (outs ! i)) = Some (int (request_counter s + i)))"
proof -
  let ?N = "length (prompt_list prompts)"
  let ?c = "request_counter s"
  let ?fin = "filter finished (concat ticks)"
  let ?ids = "map (\<lambda>i. str_nat (?c + i)) [0..<?N]"
  let ?k = "\<lambda>x. the (py_int (request_id x))"
  have idset: "set (map request_id ?fin) = set ?ids"
    using contract by (metis set_mset_mset)
  have id_of: "\<exists>i<?N. request_id x = str_nat (?c + i)" if "x \<in> set ?fin" for x
  proof -
    from that have "request_id x \<in> set (map request_id ?fin)" by simp
    with idset have "request_id x \<in> set ?ids" by simp
    then show ?thesis by auto
  qed
  have key: "\<forall>x\<in>set ?fin. py_int (request_id x) = Some (?k x)"
  proof
    fix x assume "x \<in> set ?fin"
    from id_of[OF this] show "py_int (request_id x) = Some (?k x)" by auto
  qed
  let ?outs = "sort_key ?k ?fin"
  have srt: "sort_by_request_id ?fin = Inr ?outs"
    using sort_by_request_id_ok[OF key] .
  have run: "run_engine E use_tqdm elapsed s1 = Some (Inr ?outs, s1 \<lparr> llm_engine := e' \<rparr>)"
    using drain_loop_trace[OF tr ok] srt by (simp add: run_engine_def)
  have "mset (map ?k ?fin) = image_mset (\<lambda>r. the (py_int r)) (mset (map request_id ?fin))"
    by (simp add: multiset.map_comp comp_def)
  also have "\<dots> = image_mset (\<lambda>r. the (py_int r)) (mset ?ids)"
    using contract by simp
  also have "\<dots> = mset (map (\<lambda>i. int (?c + i)) [0..<?N])"
    by (simp add: multiset.map_comp comp_def)
  finally have ms: "mset (map (\<lambda>i. int (?c + i)) [0..<?N]) = mset (map ?k ?fin)" by simp
  have sorted_ids: "sorted (map (\<lambda>i. int (?c + i)) [0..<?N])"
    by (simp add: sorted_map sorted_wrt_iff_nth_less)
  have keys: "map ?k ?outs = map (\<lambda>i. int (?c + i)) [0..<?N]"
    using properties_for_sort[OF ms sorted_ids] by (simp add: map_sort_key)
  then have len: "length ?outs = ?N"
    by (metis length_map length_upt minus_nat.diff_0)
  have out_id: "request_id (?outs ! i) = str_nat (?c + i) \<and>
                py_int (request_id (?outs ! i)) = Some (int (?c + i))" if i: "i < ?N" for i
  proof -
    from i len have mem: "?outs ! i \<in> set ?fin"
      by (metis nth_mem set_sort)
    from keys i len have ki: "?k (?outs ! i) = int (?c + i)"
      by (metis (no_types, lifting) add.left_neutral length_map nth_map nth_upt)
    from id_of[OF mem] obtain j where j: "request_id (?outs ! i) = str_nat (?c + j)" by blast
    with ki have "j = i" by simp
    with j show ?thesis by simp
  qed
  from validate_Inr[OF sub] obtain reqs where
    rl: "length reqs = ?N" and fd: "feed E (llm_engine s) reqs = Inr (llm_engine s1)" and
    rq: "\<forall>k<?N. req_request_id (reqs ! k) = str_nat (?c + k) \<and>
                 req_prompt (reqs ! k) = prompt_list prompts ! k"
    by blast
  have "\<forall>i<?N.
              req_prompt (reqs ! i) = prompt_list prompts ! i \<and>
              req_request_id (reqs ! i) = str_nat (?c + i) \<and>
              request_id (?outs ! i) = req_request_id (reqs ! i) \<and>
              py_int (request_id (?outs ! i)) = Some (int (?c + i))"
    using rq out_id by simp
  moreover have "mset ?outs = mset ?fin" by simp
  ultimately show ?thesis using run len rl fd by blast
qed


lemma ex_py_int:
  "py_int ''9'' = Some 9" "py_int ''10'' = Some 10" "py_int ''11'' = Some 11"
  using py_int_str_nat[of 9] py_int_str_nat[of 10] py_int_str_nat[of 11]
  by (simp_all add: ex_str_nat)

lemma ex_progress_ok: "progress_ok True (\<lambda>k. 1) (concat ex_ticks)"
  by (simp add: progress_ok_def ex_ticks_def ex_out_def)

lemma ex_run_engine:
  "run_engine ex_engine True (\<lambda>k. 1) ex_state1 =
     Some (Inr [ex_out ''9'' True, ex_out ''10'' True, ex_out ''11'' True],
           ex_state1 \<lparr> llm_engine := [] \<rparr>)"
proof -
  have s: "sort_by_request_id [ex_out ''10'' True, ex_out ''11'' True, ex_out ''9'' True] =
             Inr [ex_out ''9'' True, ex_out ''10'' True, ex_out ''11'' True]"
    by (simp add: sort_by_request_id_def py_sorted_def ex_out_def ex_py_int)
  have f: "filter finished (concat ex_ticks) =
             [ex_out ''10'' True, ex_out ''11'' True, ex_out ''9'' True]"
    by (simp add: ex_ticks_def ex_out_def)
  from drain_loop_trace[OF ex_engine_trace ex_progress_ok] s f
  show ?thesis by (simp add: run_engine_def)
qed

lemma ex_stale_calls:
  "validate_and_add_requests ex_engine (PromptsSeq [PromptStr ''aaa'', PromptStr ''b''])
       (ParamsSingle 0) LoraNone None None None None (Some [5]) ex_state =
     (Inl IndexError, ex_stale)"
  "validate_and_add_requests ex_engine ex_next_prompts (ParamsSingle 0) LoraNone None None None
       None None ex_stale = (Inr (), ex_state1)"
  by (simp_all add: validate_and_add_requests_def prompt_list_def params_refs_def
      ex_state_def ex_heap_def add_guided_params_def select_params_def select_lora_def
      select_priority_def add_request_def ex_engine_def ex_str_nat py_index_def
      ex_stale_def ex_next_prompts_def ex_state1_def)

section \<open>Properties of beam search\<close>

text \<open>
  C3, as it fails: with beam width 2 and \<open>max_tokens = 0\<close> the step loop does not run,
  the only sequence of the instance is the initial beam, and the output has one
  sequence, not two.
\<close>

theorem beam_search_keeps_fewer_than_beam_width:
  "fst (beam_search ex_tokenizer ex_sort_key ex_generate ex_dflt [ex_prompt]
          (ex_params \<lparr> max_tokens := 0 \<rparr>) LoraNone) =
     Inr [\<lparr> sequences = [(ex_beam [1, 1] 0) \<lparr> beam_text := Some ''tt'' \<rparr>] \<rparr>] \<and>
   beam_width (ex_params \<lparr> max_tokens := 0 \<rparr>) = 2"
proof -
  have f: "map (finish_instance ex_tokenizer cum_logprob 2) ex_insts0 =
             [\<lparr> sequences = [(ex_beam [1, 1] 0) \<lparr> beam_text := Some ''tt'' \<rparr>] \<rparr>]"
    by (simp add: finish_instance_def ex_insts0_def ex_instance_def py_sorted_reverse_def
        py_slice_to_def ex_tokenizer_def ex_beam_def)
  show ?thesis
    by (simp add: beam_search_def get_beam_search_lora_requests_def ex_create ex_params_def
        ex_tokenizer_def[THEN arg_cong, of eos_token_id] ex_sort_key_def f
        del: create_instances.simps)
qed

text \<open>
  C3. When beam search terminates, the remaining active beams of every instance are
  merged into its completed list, the merged list is sorted again in descending order of
  the key, the first \<open>beam_width\<close> sequences of the sorted list are kept, all of them
  when there are fewer (so \<open>min(beam_width, available)\<close> sequences for a non-negative
  beam width), and decoded to text, and the result has one output per input prompt, in
  input order. The kept sequences are the top ones: no sequence left out has a larger
  key than a kept one.
\<close>

theorem beam_search_final_selection:
  assumes run: "beam_search tok F G dflt prompts params lora = (Inr outs, trace)"
  shows "length outs = length prompts \<and>
         (\<exists>insts.
            (if trace = []
             then \<exists>lrs. get_beam_search_lora_requests lora prompts = Inr lrs \<and>
                        create_instances tok (zip lrs prompts) = Inr insts
             else snd (last trace) = Inr insts) \<and>
            length insts = length prompts \<and>
            (\<forall>i<length prompts.
               get_prompt_tokens tok (prompts ! i) = Inr (prompt_tokens (insts ! i)) \<and>
               (\<exists>best.
                  best = py_slice_to (beam_width params)
                           (py_sorted_reverse (F (eos_token_id tok) (length_penalty params))
                              (completed (insts ! i) @ beams (insts ! i))) \<and>
                  sequences (outs ! i) =
                    map (\<lambda>beam. beam \<lparr> beam_text := Some (decode tok (tokens beam)) \<rparr>) best \<and>
                  sorted_wrt (\<lambda>a b. F (eos_token_id tok) (length_penalty params) b
                                      \<le> F (eos_token_id tok) (length_penalty params) a) best \<and>
                  mset best \<subseteq># mset (completed (insts ! i) @ beams (insts ! i)) \<and>
                  length best =
                    (if 0 \<le> beam_width params
                     then min (nat (beam_width params))
                            (length (completed (insts ! i)) + length (beams (insts ! i)))
                     else length (completed (insts ! i)) + length (beams (insts ! i))
                            - nat (- beam_width params)) \<and>
                  (\<forall>x\<in>#(mset (completed (insts ! i) @ beams (insts ! i)) - mset best).
                     \<forall>y\<in>set best. F (eos_token_id tok) (length_penalty params) x
                                    \<le> F (eos_token_id tok) (length_penalty params) y))))"
proof -
  let ?key = "F (eos_token_id tok) (length_penalty params)"
  from beam_search_cases[OF run] obtain lrs insts0 r' where
    lr: "get_beam_search_lora_requests lora prompts = Inr lrs" and
    ci: "create_instances tok (zip lrs prompts) = Inr insts0" and
    lp: "beam_search_loop G (beam_search_params dflt params) (eos_token_id tok)
              (ignore_eos params) ?key
              (beam_width params) (nat (max_tokens params)) 0 insts0 = (r', trace)" and
    r: "Inr outs = (case r' of Inl e \<Rightarrow> Inl e
                 | Inr insts \<Rightarrow>
                     Inr (map (finish_instance tok ?key (beam_width params)) insts))"
    by auto
  from r obtain insts where r': "r' = Inr insts"
    and outs: "outs = map (finish_instance tok ?key (beam_width params)) insts"
    by (cases r') auto
  note init = initial_instances[OF lr ci]
  from loop_trace(6)[OF lp] r'
  have fin: "Inr insts = (if trace = [] then Inr insts0 else snd (last trace))" by simp
  have frame: "length insts = length prompts \<and>
               (\<forall>i<length prompts. prompt_tokens (insts ! i) = prompt_tokens (insts0 ! i))"
  proof (cases "trace = []")
    case True
    with fin init(1) show ?thesis by simp
  next
    case False
    let ?j = "length trace - 1"
    from False have j: "?j < length trace" by simp
    from False fin have "snd (trace ! ?j) = Inr insts" by (simp add: last_conv_nth)
    with loop_trace(2)[OF lp j]
    have st: "beam_search_step G (beam_search_params dflt params) (eos_token_id tok)
              (ignore_eos params) ?key (beam_width params) ?j (fst (trace ! ?j)) = Inr insts"
      by simp
    from loop_frame[OF lp j] init(1)
    have "length (fst (trace ! ?j)) = length prompts"
      and "\<forall>i<length prompts. prompt_tokens (fst (trace ! ?j) ! i) = prompt_tokens (insts0 ! i)"
      by auto
    with step_frame(1)[OF st] step_frame(2)[OF st] show ?thesis by auto
  qed
  have sel: "if trace = []
             then \<exists>lrs. get_beam_search_lora_requests lora prompts = Inr lrs \<and>
                        create_instances tok (zip lrs prompts) = Inr insts
             else snd (last trace) = Inr insts"
  proof (cases "trace = []")
    case True
    with fin have "insts = insts0" by simp
    with True lr ci show ?thesis by auto
  next
    case False
    with fin have "snd (last trace) = Inr insts" by simp
    with False show ?thesis by simp
  qed
  have each: "get_prompt_tokens tok (prompts ! i) = Inr (prompt_tokens (insts ! i)) \<and>
               (\<exists>best.
                  best = py_slice_to (beam_width params)
                           (py_sorted_reverse ?key (completed (insts ! i) @ beams (insts ! i))) \<and>
                  sequences (outs ! i) =
                    map (\<lambda>beam. beam \<lparr> beam_text := Some (decode tok (tokens beam)) \<rparr>) best \<and>
                  sorted_wrt (\<lambda>a b. ?key b \<le> ?key a) best \<and>
                  mset best \<subseteq># mset (completed (insts ! i) @ beams (insts ! i)) \<and>
                  length best =
                    (if 0 \<le> beam_width params
                     then min (nat (beam_width params))
                            (length (completed (insts ! i)) + length (beams (insts ! i)))
                     else length (completed (insts ! i)) + length (beams (insts ! i))
                            - nat (- beam_width params)) \<and>
                  (\<forall>x\<in>#(mset (completed (insts ! i) @ beams (insts ! i)) - mset best).
                     \<forall>y\<in>set best. ?key x \<le> ?key y))"
    if i: "i < length prompts" for i
  proof -
    let ?best = "py_slice_to (beam_width params)
                   (py_sorted_reverse ?key (completed (insts ! i) @ beams (insts ! i)))"
    have pt: "get_prompt_tokens tok (prompts ! i) = Inr (prompt_tokens (insts ! i))"
      using init(2)[OF i] frame i by simp
    have sq: "sequences (outs ! i) =
                map (\<lambda>beam. beam \<lparr> beam_text := Some (decode tok (tokens beam)) \<rparr>) ?best"
      using outs frame i by (simp add: finish_instance_def Let_def)
    note ts = top_selection[where k = ?key and n = "beam_width params"
                 and xs = "completed (insts ! i) @ beams (insts ! i)", OF refl]
    have ln: "length ?best =
                (if 0 \<le> beam_width params
                 then min (nat (beam_width params))
                        (length (completed (insts ! i)) + length (beams (insts ! i)))
                 else length (completed (insts ! i)) + length (beams (insts ! i))
                        - nat (- beam_width params))"
      using ts(3) by simp
    from pt sq ts(1) ts(2) ln ts(4) show ?thesis by blast
  qed
  have "length outs = length prompts" using outs frame by simp
  with sel frame each show ?thesis by blast
qed

theorem beam_search_final_selection_witness:
  "length ex_outputs = length [ex_prompt] \<and>
   sequences (ex_outputs ! 0) =
     map (\<lambda>beam. beam \<lparr> beam_text := Some (decode ex_tokenizer (tokens beam)) \<rparr>)
       (py_slice_to (beam_width ex_params)
          (py_sorted_reverse (ex_sort_key (eos_token_id ex_tokenizer) (length_penalty ex_params))
             (completed (ex_insts2 ! 0) @ beams (ex_insts2 ! 0))))"
proof -
  from beam_search_final_selection[OF ex_run] obtain insts where
    a: "length ex_outputs = length [ex_prompt]" and
    b: "snd (last ex_trace) = Inr insts" and
    c: "\<forall>i<length [ex_prompt].
          sequences (ex_outputs ! i) =
            map (\<lambda>beam. beam \<lparr> beam_text := Some (decode ex_tokenizer (tokens beam)) \<rparr>)
              (py_slice_to (beam_width ex_params)
                (py_sorted_reverse (ex_sort_key (eos_token_id ex_tokenizer) (length_penalty ex_params))
                   (completed (insts ! i) @ beams (insts ! i))))"
    by (auto simp: ex_trace_def)
  from b have "insts = ex_insts2" by (simp add: ex_trace_def)
  with a c show ?thesis by simp
qed

text \<open>
  C4. In every expansion step, a candidate whose new token is the end-of-sequence token
  while \<open>ignore_eos\<close> is false is appended to the completed list of its instance and is
  not among the active beams after the step; it is in no batch submitted at a later
  step, so it is never extended.
\<close>

theorem eos_candidate_completed_not_active:
  assumes run: "beam_search tok F G dflt prompts params lora = (r, trace)"
    and ign: "\<not> ignore_eos params"
    and j: "j < length trace"
    and ok: "snd (trace ! j) = Inr insts'"
    and gen: "G j (map create_tokens_prompt_from_beam (flatten_beams (fst (trace ! j))))
                (beam_search_params dflt params)
                (map lora_request (flatten_beams (fst (trace ! j)))) = Inr out"
    and i: "i < length (fst (trace ! j))"
    and se: "instance_start_and_end (fst (trace ! j)) ! i = (s, e)"
    and p: "s \<le> p" "p < e"
    and lps: "result_logprobs (out ! p) = Inr (Some lps)"
    and item: "item \<in> set lps" "Some (fst item) = eos_token_id tok"
  shows "new_beam (flatten_beams (fst (trace ! j)) ! p) lps item \<in> set (completed (insts' ! i)) \<and>
         new_beam (flatten_beams (fst (trace ! j)) ! p) lps item \<notin> set (beams (insts' ! i)) \<and>
         (\<forall>j'. j < j' \<and> j' < length trace \<longrightarrow>
            new_beam (flatten_beams (fst (trace ! j)) ! p) lps item
              \<notin> set (flatten_beams (fst (trace ! j'))))"
proof -
  let ?c = "new_beam (flatten_beams (fst (trace ! j)) ! p) lps item"
  let ?key = "F (eos_token_id tok) (length_penalty params)"
  from j have ne: "trace \<noteq> []" by auto
  with beam_search_cases[OF run] obtain lrs insts0 r' where
    lp: "beam_search_loop G (beam_search_params dflt params) (eos_token_id tok)
              (ignore_eos params) ?key
              (beam_width params) (nat (max_tokens params)) 0 insts0 = (r', trace)"
    by auto
  have last_c: "Some (last (tokens ?c)) = eos_token_id tok"
    using item(2) by (simp add: new_beam_def)
  have active_not_eos: "Some (last (tokens b)) \<noteq> eos_token_id tok"
    if m: "m < length trace" and okm: "snd (trace ! m) = Inr ys" and
       q: "q < length ys" and b: "b \<in> set (beams (ys ! q))" for m ys q b
  proof -
    have st: "beam_search_step G (beam_search_params dflt params) (eos_token_id tok)
              (ignore_eos params) ?key (beam_width params) m (fst (trace ! m)) = Inr ys"
      using loop_trace(2)[OF lp m] okm by simp
    from step_frame(1)[OF st] q have "q < length (fst (trace ! m))" by simp
    from step_active_child[OF st this b] ign
    obtain b0 lps0 item0 where "Some (fst item0) \<noteq> eos_token_id tok" "b = new_beam b0 lps0 item0"
      by blast
    then show ?thesis by (simp add: new_beam_def)
  qed
  have st: "beam_search_step G (beam_search_params dflt params) (eos_token_id tok)
              (ignore_eos params) ?key (beam_width params) j (fst (trace ! j)) = Inr insts'"
    using loop_trace(2)[OF lp j] ok by simp
  from beam_search_step_Inr[OF st] gen i have
    sti: "step_instance (eos_token_id tok) (ignore_eos params) ?key (beam_width params)
            (flatten_beams (fst (trace ! j))) out
            (instance_start_and_end (fst (trace ! j)) ! i, fst (trace ! j) ! i) = Inr (insts' ! i)"
    by auto
  have "?c \<in> set (children (eos_token_id tok) (ignore_eos params) True
                     (flatten_beams (fst (trace ! j))) out p)"
    using lps item ign by (auto simp: children_def)
  with p have "?c \<in> set (concat (map (children (eos_token_id tok) (ignore_eos params) True
                     (flatten_beams (fst (trace ! j))) out) [s..<e]))" by auto
  with step_instance_Inr(2)[OF sti[unfolded se]]
  have a: "?c \<in> set (completed (insts' ! i))" by simp
  from step_frame(1)[OF st] i have i': "i < length insts'" by simp
  have b: "?c \<notin> set (beams (insts' ! i))"
    using active_not_eos[OF j ok i'] last_c by blast
  have c: "?c \<notin> set (flatten_beams (fst (trace ! j')))" if jj: "j < j'" "j' < length trace" for j'
  proof
    assume mem: "?c \<in> set (flatten_beams (fst (trace ! j')))"
    from jj obtain m where m: "j' = Suc m" by (cases j') auto
    with jj have ml: "m < length trace" by simp
    from loop_trace(5)[OF lp, of m] jj m have okm: "snd (trace ! m) = Inr (fst (trace ! j'))" by simp
    from mem obtain inst where "inst \<in> set (fst (trace ! j'))" "?c \<in> set (beams inst)"
      by (auto simp: flatten_beams_def)
    then obtain q where "q < length (fst (trace ! j'))" "?c \<in> set (beams (fst (trace ! j') ! q))"
      by (auto simp: in_set_conv_nth)
    from active_not_eos[OF ml okm this] last_c show False by simp
  qed
  from a b c show ?thesis by blast
qed

theorem eos_candidate_completed_not_active_witness:
  "new_beam (flatten_beams (fst (ex_trace ! 0)) ! 0) ex_dict (2, - 2)
     \<in> set (completed (ex_insts1 ! 0)) \<and>
   new_beam (flatten_beams (fst (ex_trace ! 0)) ! 0) ex_dict (2, - 2)
     \<notin> set (beams (ex_insts1 ! 0)) \<and>
   new_beam (flatten_beams (fst (ex_trace ! 0)) ! 0) ex_dict (2, - 2)
     \<notin> set (flatten_beams (fst (ex_trace ! 1)))"
proof -
  have h1: "\<not> ignore_eos ex_params" by (simp add: ex_params_def)
  have h2: "0 < length ex_trace" by (simp add: ex_trace_def)
  have h3: "snd (ex_trace ! 0) = Inr ex_insts1" by (simp add: ex_trace_def)
  have h4: "ex_generate 0 (map create_tokens_prompt_from_beam (flatten_beams (fst (ex_trace ! 0))))
              (beam_search_params ex_dflt ex_params)
              (map lora_request (flatten_beams (fst (ex_trace ! 0)))) = Inr (take 1 ex_output)"
    by (simp add: ex_generate_def ex_trace_def ex_flatten ex_output_def)
  have h5: "0 < length (fst (ex_trace ! 0))" by (simp add: ex_trace_def ex_insts0_def)
  have h6: "instance_start_and_end (fst (ex_trace ! 0)) ! 0 = (0, 1)"
    by (simp add: ex_trace_def ex_insts0_def instance_start_and_end_def py_slice_to_def
        ex_instance_def)
  have h7: "(0::nat) \<le> 0" "(0::nat) < 1" by simp_all
  have h8: "result_logprobs (take 1 ex_output ! 0) = Inr (Some ex_dict)"
    by (simp add: ex_output_def result_logprobs_def py_index_def)
  have h9: "(2, - 2) \<in> set ex_dict" "Some (fst (2::int, - 2::real)) = eos_token_id ex_tokenizer"
    by (simp_all add: ex_dict_def ex_tokenizer_def)
  have h10: "(0::nat) < 1 \<and> 1 < length ex_trace" by (simp add: ex_trace_def)
  from eos_candidate_completed_not_active[OF ex_run h1 h2 h3 h4 h5 h6 h7 h8 h9] h10
  show ?thesis by blast
qed

text \<open>
  C5, as it fails: with beam width 0 the first iteration of the step loop reads, and
  submits, the single initial beam of the instance: a list of one beam, more than the
  beam width. After the step the list is empty and the loop stops.
\<close>

theorem first_iteration_reads_one_beam_for_width_zero:
  "snd (beam_search ex_tokenizer ex_sort_key ex_generate ex_dflt [ex_prompt]
          (ex_params \<lparr> beam_width := 0 \<rparr>) LoraNone) =
     [(ex_insts0, Inr [ex_instance [] [ex_beam [1, 1, 2] (- 2)]])] \<and>
   length (beams (ex_insts0 ! 0)) = 1 \<and>
   beam_width (ex_params \<lparr> beam_width := 0 \<rparr>) = 0"
proof -
  have st: "beam_search_step ex_generate sp (Some 2) False cum_logprob 0 k ex_insts0 =
              Inr [ex_instance [] [ex_beam [1, 1, 2] (- 2)]]" for sp k
    by (simp add: beam_search_step_def flatten_beams_def ex_instance_def ex_generate_def
        instance_start_and_end_def py_slice_to_def step_instance_def py_index_def
        result_logprobs_def ex_dict_def new_beam_def ex_beam_def py_sorted_reverse_def
        ex_insts0_def)
  have fl: "flatten_beams [ex_instance [] cs] = []" for cs
    by (simp add: flatten_beams_def ex_instance_def)
  have lp: "beam_search_loop ex_generate sp (Some 2) False cum_logprob 0 2 0 ex_insts0 =
              (Inr [ex_instance [] [ex_beam [1, 1, 2] (- 2)]],
               [(ex_insts0, Inr [ex_instance [] [ex_beam [1, 1, 2] (- 2)]])])" for sp
    by (simp add: numeral_2_eq_2 st fl ex_flatten)
  have "snd (beam_search ex_tokenizer ex_sort_key ex_generate ex_dflt [ex_prompt]
          (ex_params \<lparr> beam_width := 0 \<rparr>) LoraNone) =
        [(ex_insts0, Inr [ex_instance [] [ex_beam [1, 1, 2] (- 2)]])]"
    by (simp add: beam_search_def get_beam_search_lora_requests_def ex_create ex_params_def
        ex_tokenizer_def[THEN arg_cong, of eos_token_id] ex_sort_key_def lp
        del: beam_search_loop.simps create_instances.simps)
  then show ?thesis by (simp add: ex_insts0_def ex_instance_def ex_params_def)
qed

text \<open>
  C5. For a non-negative beam width, after the sort and truncation of every step the
  list of active beams of every instance has at most \<open>beam_width\<close> elements; so has
  every list that the step loop reads at the start of an iteration after the first, and
  at the start of the first one too (where the list is the single initial beam) when
  the beam width is at least 1.
\<close>

theorem active_beams_at_most_beam_width:
  assumes run: "beam_search tok F G dflt prompts params lora = (r, trace)"
    and bw: "0 \<le> beam_width params"
    and j: "j < length trace"
  shows "(\<forall>insts'. snd (trace ! j) = Inr insts' \<longrightarrow>
            (\<forall>inst\<in>set insts'. int (length (beams inst)) \<le> beam_width params)) \<and>
         (0 < j \<or> 1 \<le> beam_width params \<longrightarrow>
            (\<forall>inst\<in>set (fst (trace ! j)). int (length (beams inst)) \<le> beam_width params))"
proof -
  from j have ne: "trace \<noteq> []" by auto
  with beam_search_cases[OF run] obtain lrs insts0 r' where
    lr: "get_beam_search_lora_requests lora prompts = Inr lrs" and
    ci: "create_instances tok (zip lrs prompts) = Inr insts0" and
    lp: "beam_search_loop G (beam_search_params dflt params) (eos_token_id tok)
              (ignore_eos params) (F (eos_token_id tok) (length_penalty params))
              (beam_width params) (nat (max_tokens params)) 0 insts0 = (r', trace)"
    by auto
  note init = initial_instances[OF lr ci]
  have after: "\<forall>inst\<in>set insts'. int (length (beams inst)) \<le> beam_width params"
    if m: "m < length trace" and ok: "snd (trace ! m) = Inr insts'" for m insts'
  proof
    fix inst assume "inst \<in> set insts'"
    then obtain i where i: "i < length insts'" "inst = insts' ! i" by (auto simp: in_set_conv_nth)
    have st: "beam_search_step G (beam_search_params dflt params) (eos_token_id tok)
              (ignore_eos params) (F (eos_token_id tok) (length_penalty params))
              (beam_width params) m (fst (trace ! m)) = Inr insts'"
      using loop_trace(2)[OF lp m] ok by simp
    from step_frame(1)[OF st] i have "i < length (fst (trace ! m))" by simp
    from step_frame(4)[OF st this bw] i
    show "int (length (beams inst)) \<le> beam_width params" by simp
  qed
  have later: "\<forall>inst\<in>set (fst (trace ! j)). int (length (beams inst)) \<le> beam_width params"
    if "0 < j"
  proof -
    from that obtain m where m: "j = Suc m" by (cases j) auto
    with j have "m < length trace" by simp
    moreover from loop_trace(5)[OF lp, of m] j m have "snd (trace ! m) = Inr (fst (trace ! j))" by simp
    ultimately show ?thesis using after by blast
  qed
  have first: "\<forall>inst\<in>set (fst (trace ! j)). int (length (beams inst)) \<le> beam_width params"
    if z: "j = 0" and one: "1 \<le> beam_width params"
  proof
    fix inst assume "inst \<in> set (fst (trace ! j))"
    with z loop_trace(4)[OF lp ne] have "inst \<in> set insts0" by simp
    then obtain i where i: "i < length insts0" "inst = insts0 ! i" by (auto simp: in_set_conv_nth)
    with init(1) init(3)[of i] obtain b where "beams inst = [b]" by auto
    with one show "int (length (beams inst)) \<le> beam_width params" by simp
  qed
  have "\<forall>inst\<in>set (fst (trace ! j)). int (length (beams inst)) \<le> beam_width params"
    if "0 < j \<or> 1 \<le> beam_width params"
    using that later first by (cases j) auto
  with after[OF j] show ?thesis by blast
qed

theorem active_beams_at_most_beam_width_witness:
  "0 \<le> beam_width ex_params \<and> 1 < length ex_trace \<and>
   int (length (beams (ex_insts2 ! 0))) \<le> beam_width ex_params \<and>
   int (length (beams (ex_insts1 ! 0))) \<le> beam_width ex_params"
proof -
  have h1: "0 \<le> beam_width ex_params" by (simp add: ex_params_def)
  have h2: "1 < length ex_trace" by (simp add: ex_trace_def)
  have h3: "snd (ex_trace ! 1) = Inr ex_insts2" "fst (ex_trace ! 1) = ex_insts1"
    by (simp_all add: ex_trace_def)
  have h4: "ex_insts2 ! 0 \<in> set ex_insts2" "ex_insts1 ! 0 \<in> set ex_insts1"
    by (simp_all add: ex_insts2_def ex_insts1_def)
  from active_beams_at_most_beam_width[OF ex_run h1 h2] h1 h2 h3 h4
  show ?thesis by simp
qed

text \<open>
  C6. A beam that is active after step \<open>j + 1\<close> has as many tokens as the prompt of
  its instance plus \<open>j + 1\<close>; the instance at position \<open>i\<close> holds the tokens of the
  prompt at position \<open>i\<close>, and every continuation request asks for one new token.
\<close>

theorem active_beam_length_after_step:
  assumes run: "beam_search tok F G dflt prompts params lora = (r, trace)"
    and j: "j < length trace"
    and ok: "snd (trace ! j) = Inr insts'"
    and i: "i < length insts'"
    and b: "b \<in> set (beams (insts' ! i))"
  shows "length (tokens b) = length (prompt_tokens (insts' ! i)) + (j + 1) \<and>
         i < length prompts \<and>
         get_prompt_tokens tok (prompts ! i) = Inr (prompt_tokens (insts' ! i)) \<and>
         sp_max_tokens (beam_search_params dflt params) = Some 1"
proof -
  from j have ne: "trace \<noteq> []" by auto
  with beam_search_cases[OF run] obtain lrs insts0 r' where
    lr: "get_beam_search_lora_requests lora prompts = Inr lrs" and
    ci: "create_instances tok (zip lrs prompts) = Inr insts0" and
    lp: "beam_search_loop G (beam_search_params dflt params) (eos_token_id tok)
              (ignore_eos params) (F (eos_token_id tok) (length_penalty params))
              (beam_width params) (nat (max_tokens params)) 0 insts0 = (r', trace)"
    by auto
  note init = initial_instances[OF lr ci]
  have st: "beam_search_step G (beam_search_params dflt params) (eos_token_id tok)
              (ignore_eos params) (F (eos_token_id tok) (length_penalty params))
              (beam_width params) j (fst (trace ! j)) = Inr insts'"
    using loop_trace(2)[OF lp j] ok by simp
  from loop_frame[OF lp j] init(1)
  have len: "length (fst (trace ! j)) = length prompts"
    and pt: "\<forall>i<length prompts. prompt_tokens (fst (trace ! j) ! i) = prompt_tokens (insts0 ! i)"
    by auto
  from step_frame(1)[OF st] i len have ip: "i < length prompts" by simp
  with len have ix: "i < length (fst (trace ! j))" by simp
  have init_len: "\<forall>inst\<in>set insts0. \<forall>b\<in>set (beams inst).
                    length (tokens b) = length (prompt_tokens inst) + 0"
  proof (intro ballI)
    fix inst b assume "inst \<in> set insts0" "b \<in> set (beams inst)"
    then obtain m where m: "m < length insts0" "inst = insts0 ! m" by (auto simp: in_set_conv_nth)
    with init(1) init(3)[of m] \<open>b \<in> set (beams inst)\<close>
    show "length (tokens b) = length (prompt_tokens inst) + 0" by auto
  qed
  from loop_token_length[OF lp init_len j] ix
  have before: "\<forall>b\<in>set (beams (fst (trace ! j) ! i)).
                  length (tokens b) = length (prompt_tokens (fst (trace ! j) ! i)) + j"
    by simp
  from step_active_child[OF st ix b]
  obtain b0 lps item where b0: "b0 \<in> set (beams (fst (trace ! j) ! i))" "b = new_beam b0 lps item"
    by blast
  have same: "prompt_tokens (insts' ! i) = prompt_tokens (fst (trace ! j) ! i)"
    using step_frame(2)[OF st ix] .
  have "length (tokens b) = length (prompt_tokens (insts' ! i)) + (j + 1)"
    using before b0 same by (simp add: new_beam_def)
  moreover have "get_prompt_tokens tok (prompts ! i) = Inr (prompt_tokens (insts' ! i))"
    using init(2)[OF ip] pt ip same by simp
  moreover have "sp_max_tokens (beam_search_params dflt params) = Some 1"
    by (simp add: beam_search_params_def)
  ultimately show ?thesis using ip by simp
qed

theorem active_beam_length_after_step_witness:
  "1 < length ex_trace \<and> snd (ex_trace ! 1) = Inr ex_insts2 \<and>
   ex_beam [1, 1, 5, 7] (- 4) \<in> set (beams (ex_insts2 ! 0)) \<and>
   length (tokens (ex_beam [1, 1, 5, 7] (- 4))) = length (prompt_tokens (ex_insts2 ! 0)) + (1 + 1) \<and>
   get_prompt_tokens ex_tokenizer ([ex_prompt] ! 0) = Inr (prompt_tokens (ex_insts2 ! 0))"
proof -
  have h1: "1 < length ex_trace" by (simp add: ex_trace_def)
  have h2: "snd (ex_trace ! 1) = Inr ex_insts2" by (simp add: ex_trace_def)
  have h3: "0 < length ex_insts2" by (simp add: ex_insts2_def)
  have h4: "ex_beam [1, 1, 5, 7] (- 4) \<in> set (beams (ex_insts2 ! 0))"
    by (simp add: ex_insts2_def ex_instance_def)
  from active_beam_length_after_step[OF ex_run h1 h2 h3 h4] h1 h2 h4
  show ?thesis by simp
qed

text \<open>
  C7. When every log-probability that the engine returns in a step is at most 0, every
  beam that the step produces (active after the step, or newly completed) is the child
  of a beam that was active before the step, its cumulative log-probability is the
  parent's plus the log-probability of the appended token, and it is at most the
  parent's.
\<close>

theorem step_cum_logprob_nonincreasing:
  assumes st: "beam_search_step G sp eos ign key bw k insts = Inr insts'"
    and gen: "G k (map create_tokens_prompt_from_beam (flatten_beams insts)) sp
               (map lora_request (flatten_beams insts)) = Inr out"
    and np: "nonpositive_logprobs out"
    and i: "i < length insts"
    and b: "b' \<in> set (beams (insts' ! i)) \<or>
            b' \<in> set (drop (length (completed (insts ! i))) (completed (insts' ! i)))"
  shows "\<exists>b lps item. b \<in> set (beams (insts ! i)) \<and> b' = new_beam b lps item \<and>
           cum_logprob b' = cum_logprob b + snd item \<and> cum_logprob b' \<le> cum_logprob b"
proof -
  from step_child_origin[OF st gen i b] obtain p lps item where
    p: "p < length out" and lps: "result_logprobs (out ! p) = Inr (Some lps)" and
    item: "item \<in> set lps" and par: "flatten_beams insts ! p \<in> set (beams (insts ! i))" and
    b': "b' = new_beam (flatten_beams insts ! p) lps item" by blast
  from np p lps have "list_all (\<lambda>item. snd item \<le> 0) lps"
    by (auto simp: nonpositive_logprobs_def list_all_length)
  with item have "snd item \<le> 0" by (simp add: list_all_iff)
  with par b' show ?thesis by (auto simp: new_beam_def)
qed

theorem step_cum_logprob_nonincreasing_witness:
  "nonpositive_logprobs (take 1 ex_output) \<and>
   (\<exists>b lps item. b \<in> set (beams (ex_insts0 ! 0)) \<and>
       ex_beam [1, 1, 7] (- 3) = new_beam b lps item \<and>
       cum_logprob (ex_beam [1, 1, 7] (- 3)) = cum_logprob b + snd item \<and>
       cum_logprob (ex_beam [1, 1, 7] (- 3)) \<le> cum_logprob b)"
proof -
  have h1: "ex_generate 0 (map create_tokens_prompt_from_beam (flatten_beams ex_insts0))
              ex_dflt (map lora_request (flatten_beams ex_insts0)) = Inr (take 1 ex_output)"
    by (simp add: ex_generate_def ex_flatten ex_output_def)
  have h2: "nonpositive_logprobs (take 1 ex_output)"
    by (simp add: nonpositive_logprobs_def ex_output_def result_logprobs_def py_index_def
        ex_dict_def)
  have h3: "0 < length ex_insts0" by (simp add: ex_insts0_def)
  have h4: "ex_beam [1, 1, 7] (- 3) \<in> set (beams (ex_insts1 ! 0)) \<or>
            ex_beam [1, 1, 7] (- 3)
              \<in> set (drop (length (completed (ex_insts0 ! 0))) (completed (ex_insts1 ! 0)))"
    by (simp add: ex_insts1_def ex_instance_def)
  from step_cum_logprob_nonincreasing[OF ex_step0 h1 h2 h3 h4] h2
  show ?thesis by blast
qed

text \<open>
  C8. When the adapter-handle argument is a sequence whose length differs from the
  number of prompts, \<open>beam_search\<close> raises the \<open>ValueError\<close> of line 568 and the log of
  calls of \<open>generate\<close> is empty: nothing was submitted to the engine.
\<close>

theorem beam_search_lora_length_mismatch:
  assumes "length ls \<noteq> length prompts"
  shows "beam_search tok F G dflt prompts params (LoraSeq ls) =
           (Inl (ValueError ''Lora request list should be the same length as the prompts''), [])"
  using assms by (simp add: beam_search_def get_beam_search_lora_requests_def)

theorem beam_search_lora_length_mismatch_witness:
  "length [None, None :: LoRARequest option] \<noteq> length [ex_prompt, ex_prompt, ex_prompt] \<and>
   beam_search ex_tokenizer ex_sort_key ex_generate ex_dflt [ex_prompt, ex_prompt, ex_prompt]
       ex_params (LoraSeq [None, None]) =
     (Inl (ValueError ''Lora request list should be the same length as the prompts''), [])"
proof -
  have h: "length [None, None :: LoRARequest option] \<noteq> length [ex_prompt, ex_prompt, ex_prompt]"
    by simp
  from beam_search_lora_length_mismatch[OF h] h show ?thesis by blast
qed

text \<open>
  C9. \<open>beam_search\<close> always returns, after at most \<open>max_tokens\<close> calls of \<open>generate\<close>
  (none for a negative \<open>max_tokens\<close>); no call submits an empty batch; and when it
  returns outputs after fewer calls, no instance had an active beam left.
\<close>

theorem beam_search_at_most_max_tokens_submissions:
  assumes run: "beam_search tok F G dflt prompts params lora = (r, trace)"
  shows "length trace \<le> nat (max_tokens params) \<and>
         (\<forall>j<length trace. flatten_beams (fst (trace ! j)) \<noteq> []) \<and>
         (\<forall>outs. r = Inr outs \<and> length trace < nat (max_tokens params) \<longrightarrow>
            (if trace = [] then prompts = []
             else \<exists>insts. snd (last trace) = Inr insts \<and> flatten_beams insts = []))"
proof -
  from beam_search_cases[OF run]
  show ?thesis
  proof
    assume "\<exists>e. r = Inl e \<and> trace = []"
    then show ?thesis by auto
  next
    assume "\<exists>lrs insts0 r'.
            get_beam_search_lora_requests lora prompts = Inr lrs \<and>
            create_instances tok (zip lrs prompts) = Inr insts0 \<and>
            beam_search_loop G (beam_search_params dflt params) (eos_token_id tok)
              (ignore_eos params) (F (eos_token_id tok) (length_penalty params))
              (beam_width params) (nat (max_tokens params)) 0 insts0 = (r', trace) \<and>
            r = (case r' of Inl e \<Rightarrow> Inl e
                 | Inr insts \<Rightarrow>
                     Inr (map (finish_instance tok (F (eos_token_id tok) (length_penalty params))
                                 (beam_width params)) insts))"
    then obtain lrs insts0 r' where
      lr: "get_beam_search_lora_requests lora prompts = Inr lrs" and
      ci: "create_instances tok (zip lrs prompts) = Inr insts0" and
      lp: "beam_search_loop G (beam_search_params dflt params) (eos_token_id tok)
              (ignore_eos params) (F (eos_token_id tok) (length_penalty params))
              (beam_width params) (nat (max_tokens params)) 0 insts0 = (r', trace)" and
      r: "r = (case r' of Inl e \<Rightarrow> Inl e
                 | Inr insts \<Rightarrow>
                     Inr (map (finish_instance tok (F (eos_token_id tok) (length_penalty params))
                                 (beam_width params)) insts))"
      by blast
    note init = initial_instances[OF lr ci]
    have a: "length trace \<le> nat (max_tokens params)" using loop_trace(1)[OF lp] .
    have b: "\<forall>j<length trace. flatten_beams (fst (trace ! j)) \<noteq> []"
      using loop_trace(3)[OF lp] by blast
    have c: "if trace = [] then prompts = []
             else \<exists>insts. snd (last trace) = Inr insts \<and> flatten_beams insts = []"
      if outs: "r = Inr outs" and lt: "length trace < nat (max_tokens params)" for outs
    proof -
      from outs r obtain f where f: "r' = Inr f" by (cases r') auto
      with loop_trace(7)[OF lp lt] have fe: "flatten_beams f = []" by auto
      from loop_trace(6)[OF lp] f
      have fin: "Inr f = (if trace = [] then Inr insts0 else snd (last trace))" by simp
      show ?thesis
      proof (cases "trace = []")
        case True
        with fin have "f = insts0" by simp
        with fe have e0: "flatten_beams insts0 = []" by simp
        have "prompts = []"
        proof (rule ccontr)
          assume "prompts \<noteq> []"
          then have z: "0 < length prompts" by simp
          from init(3)[OF z] obtain b0 where "beams (insts0 ! 0) = [b0]" by blast
          moreover from z init(1) have "insts0 ! 0 \<in> set insts0" by simp
          ultimately show False using e0 by (auto simp: flatten_beams_def)
        qed
        with True show ?thesis by simp
      next
        case False
        with fin have "snd (last trace) = Inr f" by simp
        with fe False show ?thesis by simp
      qed
    qed
    from a b c show ?thesis by blast
  qed
qed

theorem beam_search_at_most_max_tokens_submissions_witness:
  "length ex_trace \<le> nat (max_tokens ex_params) \<and>
   flatten_beams (fst (ex_trace ! 0)) \<noteq> [] \<and> flatten_beams (fst (ex_trace ! 1)) \<noteq> []"
proof -
  have h: "0 < length ex_trace" "1 < length ex_trace" by (simp_all add: ex_trace_def)
  from beam_search_at_most_max_tokens_submissions[OF ex_run] h show ?thesis by blast
qed

section \<open>Properties of submission and of the drain loop\<close>

text \<open>
  C1. The drain loop returns whatever the engine finishes, not the outputs of the
  requests of this call. The call with two prompts and one priority fails after it has
  submitted the request \<open>9\<close>, which stays in the engine. The next call submits two
  prompts under the identifiers \<open>10\<close> and \<open>11\<close>; its drain loop, with the progress bar
  of the default, returns three outputs, and the first is the output of \<open>9\<close>, which
  belongs to no prompt of this call.
\<close>

theorem run_engine_returns_stale_request:
  "validate_and_add_requests ex_engine (PromptsSeq [PromptStr ''aaa'', PromptStr ''b''])
       (ParamsSingle 0) LoraNone None None None None (Some [5]) ex_state =
     (Inl IndexError, ex_stale) \<and>
   validate_and_add_requests ex_engine ex_next_prompts (ParamsSingle 0) LoraNone None None None
       None None ex_stale = (Inr (), ex_state1) \<and>
   length (prompt_list ex_next_prompts) = 2 \<and>
   run_engine ex_engine True (\<lambda>k. 1) ex_state1 =
     Some (Inr [ex_out ''9'' True, ex_out ''10'' True, ex_out ''11'' True],
           ex_state1 \<lparr> llm_engine := [] \<rparr>)"
  using ex_stale_calls ex_run_engine by (simp add: prompt_list_def ex_next_prompts_def)

text \<open>
  C2. The lengths of a sequence of parameters and of a sequence of adapter handles are
  checked before anything is submitted (lemmas \<open>validate_params_length_mismatch\<close> and
  \<open>validate_lora_length_mismatch\<close>); the length of \<open>priority\<close> is not. With two prompts
  and one priority, the call raises \<open>IndexError\<close> after it has submitted the first
  request and taken the identifier 9 from the counter; with one prompt and two
  priorities it succeeds.
\<close>

theorem priority_length_mismatch_not_validated:
  "validate_and_add_requests ex_engine (PromptsSeq [PromptStr ''aaa'', PromptStr ''b''])
       (ParamsSingle 0) LoraNone None None None None (Some [5]) ex_state =
     (Inl IndexError,
      \<lparr> request_counter = 10, llm_engine = [(''9'', 3)],
        heap = ex_heap (0 := Sampling (ex_dflt \<lparr> output_kind := FINAL_ONLY \<rparr>)) \<rparr>) \<and>
   validate_and_add_requests ex_engine (PromptsSeq [PromptStr ''aaa''])
       (ParamsSingle 0) LoraNone None None None None (Some [5, 6]) ex_state =
     (Inr (),
      \<lparr> request_counter = 10, llm_engine = [(''9'', 3)],
        heap = ex_heap (0 := Sampling (ex_dflt \<lparr> output_kind := FINAL_ONLY \<rparr>)) \<rparr>)"
  by (simp add: validate_and_add_requests_def prompt_list_def params_refs_def
      ex_state_def ex_heap_def add_guided_params_def select_params_def select_lora_def
      select_priority_def add_request_def ex_engine_def ex_str_nat py_index_def)

text \<open>
  C10. In a call without guided-decoding options whose sequence arguments have the
  length of the prompts, every parameter object that the caller passed is updated in the
  caller's heap: a \<^verbatim>\<open>SamplingParams\<close> object has \<open>output_kind = FINAL_ONLY\<close> and its
  other fields as before, every other object of the heap is as before; this holds for
  the single object of the broadcast case, and the parameters of every request that
  the engine was given have \<open>output_kind = FINAL_ONLY\<close>.
\<close>

theorem sampling_params_set_final_only_in_place:
  assumes run: "validate_and_add_requests E prompts params lora pa sv tk None priority s = (r, s')"
    and shp: "\<forall>rs. params = ParamsSeq rs \<longrightarrow> length rs = length (prompt_list prompts)"
    and shl: "\<forall>ls. lora = LoraSeq ls \<longrightarrow> length ls = length (prompt_list prompts)"
  shows "(\<forall>ref. heap s' ref =
            (if ref \<in> set (params_refs params) then final_only_obj (heap s ref) else heap s ref)) \<and>
         (\<forall>ref sp. ref \<in> set (params_refs params) \<and> heap s ref = Sampling sp \<longrightarrow>
            heap s' ref = Sampling (sp \<lparr> output_kind := FINAL_ONLY \<rparr>)) \<and>
         (r = Inr () \<longrightarrow>
            (\<exists>reqs. length reqs = length (prompt_list prompts) \<and>
               feed E (llm_engine s) reqs = Inr (llm_engine s') \<and>
               (\<forall>k<length (prompt_list prompts).
                  select_params params (heap s') k = Inr (req_params (reqs ! k)) \<and>
                  (\<forall>sp. req_params (reqs ! k) = Sampling sp \<longrightarrow> output_kind sp = FINAL_ONLY))))"
proof -
  let ?h = "\<lambda>ref. if ref \<in> set (params_refs params) then final_only_obj (heap s ref)
                  else heap s ref"
  from run validate_shape_ok[OF shp shl, of E pa sv tk None priority s]
  have lp: "add_requests_loop E params lora tk pa sv priority 0 (prompt_list prompts)
              (s \<lparr> heap := ?h \<rparr>) = (r, s')"
    by (simp add: set_final_only_None)
  from add_requests_loop_frame[OF lp] have hp: "heap s' = ?h" by simp
  then have a: "\<forall>ref. heap s' ref = ?h ref" by simp
  have b: "\<forall>ref sp. ref \<in> set (params_refs params) \<and> heap s ref = Sampling sp \<longrightarrow>
            heap s' ref = Sampling (sp \<lparr> output_kind := FINAL_ONLY \<rparr>)"
    using hp by (simp add: final_only_obj_def)
  have c: "\<exists>reqs. length reqs = length (prompt_list prompts) \<and>
               feed E (llm_engine s) reqs = Inr (llm_engine s') \<and>
               (\<forall>k<length (prompt_list prompts).
                  select_params params (heap s') k = Inr (req_params (reqs ! k)) \<and>
                  (\<forall>sp. req_params (reqs ! k) = Sampling sp \<longrightarrow> output_kind sp = FINAL_ONLY))"
    if ok: "r = Inr ()"
  proof -
    from run ok validate_Inr[of E prompts params lora pa sv tk None priority s "()" s']
    obtain reqs where
      l: "length reqs = length (prompt_list prompts)" and
      f: "feed E (llm_engine s) reqs = Inr (llm_engine s')" and
      p: "\<forall>k<length (prompt_list prompts).
            select_params params (heap s') k = Inr (req_params (reqs ! k))"
      by auto
    have "\<forall>sp. req_params (reqs ! k) = Sampling sp \<longrightarrow> output_kind sp = FINAL_ONLY"
      if k: "k < length (prompt_list prompts)" for k
    proof (intro allI impI)
      fix sp assume sp: "req_params (reqs ! k) = Sampling sp"
      from p k select_params_ref obtain ref where
        "ref \<in> set (params_refs params)" "req_params (reqs ! k) = heap s' ref" by blast
      with hp sp have "Sampling sp = final_only_obj (heap s ref)" by simp
      then show "output_kind sp = FINAL_ONLY"
        by (cases "heap s ref") (auto simp: final_only_obj_def)
    qed
    with l f p show ?thesis by blast
  qed
  from a b c show ?thesis by blast
qed

theorem sampling_params_set_final_only_in_place_witness:
  "heap ex_state 0 = Sampling ex_dflt \<and>
   heap ex_state1 0 = Sampling (ex_dflt \<lparr> output_kind := FINAL_ONLY \<rparr>) \<and>
   heap ex_state1 1 = heap ex_state 1"
proof -
  have h1: "\<forall>rs. ParamsSingle 0 = ParamsSeq rs \<longrightarrow> length rs = length (prompt_list ex_prompts)"
    by simp
  have h2: "\<forall>ls. LoraNone = LoraSeq ls \<longrightarrow> length ls = length (prompt_list ex_prompts)"
    by simp
  have h3: "heap ex_state 0 = Sampling ex_dflt" by (simp add: ex_state_def ex_heap_def)
  have h4: "(0::nat) \<in> set (params_refs (ParamsSingle 0))" "(1::nat) \<notin> set (params_refs (ParamsSingle 0))"
    by (simp_all add: params_refs_def)
  from sampling_params_set_final_only_in_place[OF ex_sub h1 h2] h3 h4
  show ?thesis by (simp add: final_only_obj_def)
qed

end
